theory Spec2Isabelle
  imports Complex_Main "HOL-Library.AList" "HOL-Library.Product_Lexorder" "HOL-Library.Multiset"
begin

section \<open>Values of the host language and of the store\<close>

text \<open>
  The program is \<^verbatim>\<open>src/crm_core.py\<close>: a class \<^verbatim>\<open>CRMCore\<close> whose methods run SQL
  statements on three tables declared by the string \<^verbatim>\<open>DDL\<close>. The embedding keeps
  the tables as lists of rows in insertion (rowid) order and writes every statement of
  the source as a function on them; the constraints are those of \<^verbatim>\<open>DDL\<close>
  (\<^verbatim>\<open>PRIMARY KEY\<close>, \<^verbatim>\<open>UNIQUE\<close>, \<^verbatim>\<open>NOT NULL\<close>; the \<^verbatim>\<open>REFERENCES\<close> clauses are not
  enforced, since the source never switches foreign keys on).

  Conventions of the embedding:
  \<^item> a \<^verbatim>\<open>date\<close> is its proleptic Gregorian ordinal (\<^verbatim>\<open>date.toordinal()\<close>), a
    \<^verbatim>\<open>datetime\<close> the number of microseconds since 0001-01-01T00:00:00. Their
    ISO-8601 text, which is what the tables hold, is an order-preserving, injective
    encoding of these numbers, so a column of ISO text is modelled by the number it
    denotes and a comparison of two such texts by the comparison of the numbers;
  \<^item> \<^verbatim>\<open>float\<close> values and \<^verbatim>\<open>REAL\<close> columns are exact rationals, and \<^verbatim>\<open>round(x, 2)\<close> is
    rounding to the nearest hundredth with ties to the even hundredth;
  \<^item> what the environment supplies (\<^verbatim>\<open>uuid.uuid4()\<close>, \<^verbatim>\<open>datetime.utcnow()\<close>,
    \<^verbatim>\<open>date.today()\<close>) is an argument of the operation that reads it;
  \<^item> an operation that writes returns the new state together with its result, an
    exception being \<open>Inl\<close> of the result.
\<close>

datatype error =
  IntegrityError | ValueError | OverflowError | InterfaceError | KeyError | TypeError

type_synonym date = int
type_synonym datetime = int

subsection \<open>Strings\<close>

text \<open>\<^verbatim>\<open>sep.join(xs)\<close>.\<close>

fun str_join :: "string \<Rightarrow> string list \<Rightarrow> string" where
  "str_join sep [] = []"
| "str_join sep [x] = x"
| "str_join sep (x # y # ys) = x @ sep @ str_join sep (y # ys)"

text \<open>\<^verbatim>\<open>s.split(c)\<close> for a separator of one character: never the empty list.\<close>

fun str_split :: "char \<Rightarrow> string \<Rightarrow> string list" where
  "str_split c [] = [[]]"
| "str_split c (x # xs) =
     (if x = c then [] # str_split c xs
      else (case str_split c xs of
              [] \<Rightarrow> [[x]]
            | w # ws \<Rightarrow> (x # w) # ws))"

text \<open>\<^verbatim>\<open>v or ""\<close> on a nullable text column.\<close>

definition or_empty :: "string option \<Rightarrow> string" where
  "or_empty v = (case v of None \<Rightarrow> [] | Some s \<Rightarrow> s)"

subsection \<open>Data models\<close>

record Contact =
  c_name :: string
  c_email :: string
  c_id :: string
  c_phone :: string
  c_company :: string
  c_tags :: "string list"
  c_created_at :: datetime
  c_last_contact :: "datetime option"
  c_notes :: string

definition DEAL_STAGES :: "string list" where
  "DEAL_STAGES = [''lead'', ''qualified'', ''proposal'', ''negotiation'',
                  ''closed_won'', ''closed_lost'']"

record Deal =
  d_contact_id :: string
  d_title :: string
  d_value :: rat
  d_id :: string
  d_stage :: string
  d_probability :: rat
  d_expected_close :: "date option"
  d_created_at :: datetime
  d_notes :: string

definition weighted_value :: "Deal \<Rightarrow> rat" where
  "weighted_value d = d_value d * d_probability d"


record Interaction =
  i_contact_id :: string
  i_type :: string
  i_notes :: string
  i_id :: string
  i_occurred_at :: datetime
  i_deal_id :: "string option"
  i_outcome :: string

subsection \<open>The tables of \<^verbatim>\<open>DDL\<close>\<close>

text \<open>A column without \<^verbatim>\<open>NOT NULL\<close> holds an option, \<open>None\<close> being \<^verbatim>\<open>NULL\<close>.\<close>

record contacts_row =
  cr_id :: string
  cr_name :: string
  cr_email :: string
  cr_phone :: "string option"
  cr_company :: "string option"
  cr_tags :: "string option"
  cr_notes :: "string option"
  cr_created_at :: datetime
  cr_last_contact :: "datetime option"

record deals_row =
  dr_id :: string
  dr_contact_id :: string
  dr_title :: string
  dr_value :: rat
  dr_stage :: string
  dr_probability :: rat
  dr_expected_close :: "date option"
  dr_notes :: "string option"
  dr_created_at :: datetime

record interactions_row =
  ir_id :: string
  ir_contact_id :: string
  ir_deal_id :: "string option"
  ir_type :: string
  ir_notes :: string
  ir_outcome :: "string option"
  ir_occurred_at :: datetime

record db =
  contacts :: "contacts_row list"
  deals :: "deals_row list"
  interactions :: "interactions_row list"

text \<open>The store after \<^verbatim>\<open>CRMCore.__init__\<close> on a new database.\<close>

definition empty_db :: db where
  "empty_db = \<lparr>contacts = [], deals = [], interactions = []\<rparr>"

text \<open>Default stage \<open>\<rightarrow>\<close> probability mapping.\<close>

definition STAGE_PROBS :: "(string \<times> rat) list" where
  "STAGE_PROBS = [(''lead'', 5 / 100), (''qualified'', 20 / 100), (''proposal'', 40 / 100),
                  (''negotiation'', 70 / 100), (''closed_won'', 1), (''closed_lost'', 0)]"

section \<open>Contact CRUD\<close>

text \<open>\<^verbatim>\<open>INSERT INTO contacts VALUES (?,?,?,?,?,?,?,?,?)\<close>: refused when the primary key or
  the unique email is already there.\<close>

definition insert_contacts :: "db \<Rightarrow> contacts_row \<Rightarrow> db \<times> (error + unit)" where
  "insert_contacts s row =
     (if cr_id row \<in> cr_id ` set (contacts s) \<or> cr_email row \<in> cr_email ` set (contacts s)
      then (s, Inl IntegrityError)
      else (s\<lparr>contacts := contacts s @ [row]\<rparr>, Inr ()))"

definition add_contact :: "db \<Rightarrow> Contact \<Rightarrow> db \<times> (error + Contact)" where
  "add_contact s contact =
     (case insert_contacts s
             \<lparr>cr_id = c_id contact, cr_name = c_name contact, cr_email = c_email contact,
              cr_phone = Some (c_phone contact), cr_company = Some (c_company contact),
              cr_tags = Some (str_join '','' (c_tags contact)),
              cr_notes = Some (c_notes contact),
              cr_created_at = c_created_at contact,
              cr_last_contact = c_last_contact contact\<rparr> of
        (s', Inl e) \<Rightarrow> (s', Inl e)
      | (s', Inr _) \<Rightarrow> (s', Inr contact))"

definition row_to_contact :: "contacts_row \<Rightarrow> Contact" where
  "row_to_contact row =
     \<lparr>c_name = cr_name row, c_email = cr_email row, c_id = cr_id row,
      c_phone = or_empty (cr_phone row), c_company = or_empty (cr_company row),
      c_tags = filter (\<lambda>t. t \<noteq> []) (str_split CHR '','' (or_empty (cr_tags row))),
      c_created_at = cr_created_at row,
      c_last_contact = cr_last_contact row,
      c_notes = or_empty (cr_notes row)\<rparr>"

text \<open>\<^verbatim>\<open>SELECT * FROM contacts WHERE id=?\<close>, \<^verbatim>\<open>fetchone()\<close>: the first row that matches.\<close>

definition get_contact :: "db \<Rightarrow> string \<Rightarrow> Contact option" where
  "get_contact s contact_id =
     (case find (\<lambda>r. cr_id r = contact_id) (contacts s) of
        None \<Rightarrow> None
      | Some row \<Rightarrow> Some (row_to_contact row))"

definition find_contact_by_email :: "db \<Rightarrow> string \<Rightarrow> Contact option" where
  "find_contact_by_email s email =
     (case find (\<lambda>r. cr_email r = email) (contacts s) of
        None \<Rightarrow> None
      | Some row \<Rightarrow> Some (row_to_contact row))"


text \<open>
  A value of a keyword argument typed \<^verbatim>\<open>Any\<close>: a string, a list of strings or \<^verbatim>\<open>None\<close>.
\<close>

datatype pyval = PyStr string | PyList "string list" | PyNone

definition allowed :: "string list" where
  "allowed = [''name'', ''email'', ''phone'', ''company'', ''tags'', ''notes'']"

text \<open>Binding the parameters of a statement: the store takes text and \<^verbatim>\<open>None\<close> (as
  \<^verbatim>\<open>NULL\<close>) and refuses a list.\<close>

fun bind_params :: "(string \<times> pyval) list \<Rightarrow> error + (string \<times> string option) list" where
  "bind_params [] = Inr []"
| "bind_params ((k, v) # kvs) =
     (case v of
        PyList _ \<Rightarrow> Inl InterfaceError
      | PyStr t \<Rightarrow> (case bind_params kvs of Inl e \<Rightarrow> Inl e | Inr bs \<Rightarrow> Inr ((k, Some t) # bs))
      | PyNone \<Rightarrow> (case bind_params kvs of Inl e \<Rightarrow> Inl e | Inr bs \<Rightarrow> Inr ((k, None) # bs)))"

text \<open>One item \<^verbatim>\<open>k=?\<close> of a \<^verbatim>\<open>SET\<close> clause on a row of \<^verbatim>\<open>contacts\<close>. A \<^verbatim>\<open>NULL\<close> for a
  \<^verbatim>\<open>NOT NULL\<close> column is refused by \<open>not_null_violation\<close> before any row is written.\<close>

definition set_column :: "string \<times> string option \<Rightarrow> contacts_row \<Rightarrow> contacts_row" where
  "set_column kv r =
     (if fst kv = ''name'' then (case snd kv of None \<Rightarrow> r | Some t \<Rightarrow> r\<lparr>cr_name := t\<rparr>)
      else if fst kv = ''email'' then (case snd kv of None \<Rightarrow> r | Some t \<Rightarrow> r\<lparr>cr_email := t\<rparr>)
      else if fst kv = ''phone'' then r\<lparr>cr_phone := snd kv\<rparr>
      else if fst kv = ''company'' then r\<lparr>cr_company := snd kv\<rparr>
      else if fst kv = ''tags'' then r\<lparr>cr_tags := snd kv\<rparr>
      else if fst kv = ''notes'' then r\<lparr>cr_notes := snd kv\<rparr>
      else r)"

definition not_null_violation :: "(string \<times> string option) list \<Rightarrow> bool" where
  "not_null_violation sets = (\<exists>kv \<in> set sets. fst kv \<in> {''name'', ''email''} \<and> snd kv = None)"

text \<open>\<^verbatim>\<open>UPDATE contacts SET k1=?, ... WHERE id=?\<close>; the result is \<^verbatim>\<open>rowcount\<close>. The
  statement is refused, and writes nothing, when a row it changes would hold \<^verbatim>\<open>NULL\<close> in
  a \<^verbatim>\<open>NOT NULL\<close> column or the email of another row.\<close>

definition update_contacts ::
  "db \<Rightarrow> (string \<times> string option) list \<Rightarrow> string \<Rightarrow> db \<times> (error + nat)" where
  "update_contacts s sets contact_id =
     (let hit = filter (\<lambda>r. cr_id r = contact_id) (contacts s);
          other = filter (\<lambda>r. cr_id r \<noteq> contact_id) (contacts s)
      in if hit \<noteq> [] \<and>
            (not_null_violation sets \<or>
             (\<exists>r \<in> set hit. cr_email (fold set_column sets r) \<in> cr_email ` set other))
         then (s, Inl IntegrityError)
         else (s\<lparr>contacts := map (\<lambda>r. if cr_id r = contact_id then fold set_column sets r else r)
                                 (contacts s)\<rparr>,
               Inr (length hit)))"

definition update_contact :: "db \<Rightarrow> string \<Rightarrow> (string \<times> pyval) list \<Rightarrow> db \<times> (error + bool)" where
  "update_contact s contact_id kwargs =
     (let updates = filter (\<lambda>kv. fst kv \<in> set allowed) kwargs;
          updates = (case map_of updates ''tags'' of
                       Some (PyList ts) \<Rightarrow> AList.update ''tags'' (PyStr (str_join '','' ts)) updates
                     | _ \<Rightarrow> updates)
      in if updates = [] then (s, Inr False)
         else (case bind_params updates of
                 Inl e \<Rightarrow> (s, Inl e)
               | Inr sets \<Rightarrow>
                   (case update_contacts s sets contact_id of
                      (s', Inl e) \<Rightarrow> (s', Inl e)
                    | (s', Inr rowcount) \<Rightarrow> (s', Inr (rowcount > 0)))))"

section \<open>Interaction logging\<close>

definition insert_interactions :: "db \<Rightarrow> interactions_row \<Rightarrow> db \<times> (error + unit)" where
  "insert_interactions s row =
     (if ir_id row \<in> ir_id ` set (interactions s)
      then (s, Inl IntegrityError)
      else (s\<lparr>interactions := interactions s @ [row]\<rparr>, Inr ()))"

text \<open>\<open>uuid4\<close> and \<open>utcnow\<close> are what the default factories of \<^verbatim>\<open>Interaction\<close> draw.\<close>

definition log_interaction ::
  "db \<Rightarrow> string \<Rightarrow> datetime \<Rightarrow> string \<Rightarrow> string \<Rightarrow> string \<Rightarrow> string option \<Rightarrow> string
     \<Rightarrow> db \<times> (error + Interaction)" where
  "log_interaction s uuid4 utcnow contact_id type notes deal_id outcome =
     (let ix = \<lparr>i_contact_id = contact_id, i_type = type, i_notes = notes, i_id = uuid4,
                i_occurred_at = utcnow, i_deal_id = deal_id, i_outcome = outcome\<rparr>
      in case insert_interactions s
                \<lparr>ir_id = i_id ix, ir_contact_id = i_contact_id ix, ir_deal_id = i_deal_id ix,
                 ir_type = i_type ix, ir_notes = i_notes ix, ir_outcome = Some (i_outcome ix),
                 ir_occurred_at = i_occurred_at ix\<rparr> of
           (s', Inl e) \<Rightarrow> (s', Inl e)
         | (s', Inr _) \<Rightarrow>
             (s'\<lparr>contacts := map (\<lambda>r. if cr_id r = contact_id
                                        then r\<lparr>cr_last_contact := Some (i_occurred_at ix)\<rparr>
                                        else r) (contacts s')\<rparr>,
              Inr ix))"

section \<open>Deal management\<close>

definition insert_deals :: "db \<Rightarrow> deals_row \<Rightarrow> db \<times> (error + unit)" where
  "insert_deals s row =
     (if dr_id row \<in> dr_id ` set (deals s)
      then (s, Inl IntegrityError)
      else (s\<lparr>deals := deals s @ [row]\<rparr>, Inr ()))"

definition add_deal :: "db \<Rightarrow> Deal \<Rightarrow> db \<times> (error + Deal)" where
  "add_deal s deal =
     (case insert_deals s
             \<lparr>dr_id = d_id deal, dr_contact_id = d_contact_id deal, dr_title = d_title deal,
              dr_value = d_value deal, dr_stage = d_stage deal,
              dr_probability = d_probability deal,
              dr_expected_close = d_expected_close deal,
              dr_notes = Some (d_notes deal), dr_created_at = d_created_at deal\<rparr> of
        (s', Inl e) \<Rightarrow> (s', Inl e)
      | (s', Inr _) \<Rightarrow> (s', Inr deal))"

text \<open>The check of the stage comes first; then
  \<^verbatim>\<open>UPDATE deals SET stage=?, probability=? WHERE id=?\<close>.\<close>

definition advance_deal_stage :: "db \<Rightarrow> string \<Rightarrow> string \<Rightarrow> db \<times> (error + bool)" where
  "advance_deal_stage s deal_id stage =
     (if stage \<notin> set DEAL_STAGES then (s, Inl ValueError)
      else (case map_of STAGE_PROBS stage of
              None \<Rightarrow> (s, Inl KeyError)
            | Some probability \<Rightarrow>
                (s\<lparr>deals := map (\<lambda>r. if dr_id r = deal_id
                                      then r\<lparr>dr_stage := stage, dr_probability := probability\<rparr>
                                      else r) (deals s)\<rparr>,
                 Inr (length (filter (\<lambda>r. dr_id r = deal_id) (deals s)) > 0))))"

definition row_to_deal :: "deals_row \<Rightarrow> Deal" where
  "row_to_deal row =
     \<lparr>d_contact_id = dr_contact_id row, d_title = dr_title row, d_value = dr_value row,
      d_id = dr_id row, d_stage = dr_stage row, d_probability = dr_probability row,
      d_expected_close = dr_expected_close row,
      d_created_at = dr_created_at row, d_notes = or_empty (dr_notes row)\<rparr>"

definition get_deal :: "db \<Rightarrow> string \<Rightarrow> Deal option" where
  "get_deal s deal_id =
     (case find (\<lambda>r. dr_id r = deal_id) (deals s) of
        None \<Rightarrow> None
      | Some row \<Rightarrow> Some (row_to_deal row))"


section \<open>Numbers, dates and labels of the reports\<close>

text \<open>\<^verbatim>\<open>round(x)\<close>: the nearest integer, a tie going to the even one.\<close>

definition py_round :: "rat \<Rightarrow> int" where
  "py_round x =
     (let f = \<lfloor>x\<rfloor>; r = x - of_int f
      in if r < 1 / 2 then f
         else if 1 / 2 < r then f + 1
         else if even f then f else f + 1)"

text \<open>\<^verbatim>\<open>round(x, 2)\<close>.\<close>

definition round2 :: "rat \<Rightarrow> rat" where
  "round2 x = of_int (py_round (x * 100)) / 100"

text \<open>\<^verbatim>\<open>timedelta(days=n)\<close>: at most 999999999 days either way.\<close>

definition timedelta_days :: "int \<Rightarrow> error + int" where
  "timedelta_days n = (if \<bar>n\<bar> > 999999999 then Inl OverflowError else Inr n)"

text \<open>\<^verbatim>\<open>date + timedelta\<close>: the ordinal of the result lies between 1 (0001-01-01) and
  3652059 (9999-12-31).\<close>

definition date_plus :: "date \<Rightarrow> int \<Rightarrow> error + date" where
  "date_plus d n = (if 0 < d + n \<and> d + n \<le> 3652059 then Inr (d + n) else Inl OverflowError)"

definition us_per_day :: int where
  "us_per_day = 86400000000"

text \<open>\<^verbatim>\<open>datetime - timedelta\<close> of whole days, under the same bounds.\<close>

definition datetime_minus :: "datetime \<Rightarrow> int \<Rightarrow> error + datetime" where
  "datetime_minus t n =
     (let t' = t - n * us_per_day
      in if 0 \<le> t' \<and> t' < 3652059 * us_per_day then Inr t' else Inl OverflowError)"

text \<open>\<^verbatim>\<open>str(k)\<close> of an integer, for the f-string \<^verbatim>\<open>f"week_{k}"\<close>.\<close>

definition digit_char :: "nat \<Rightarrow> char" where
  "digit_char d = ''0123456789'' ! (d mod 10)"

fun str_nat :: "nat \<Rightarrow> string" where
  "str_nat n = (if n < 10 then [digit_char n] else str_nat (n div 10) @ [digit_char (n mod 10)])"

definition str_int :: "int \<Rightarrow> string" where
  "str_int k = (if k < 0 then CHR ''-'' # str_nat (nat (- k)) else str_nat (nat k))"

definition week_label :: "int \<Rightarrow> string" where
  "week_label k = ''week_'' @ str_int k"

section \<open>Pipeline\<close>






section \<open>Forecast\<close>

record deal_snapshot =
  ds_title :: string
  ds_value :: rat
  ds_probability :: rat
  ds_weighted :: rat
  ds_expected_close :: date

record forecast =
  f_forecast_days :: int
  f_total_expected :: rat
  f_deal_count :: nat
  f_weekly_breakdown :: "(string \<times> rat) list"
  f_deals :: "deal_snapshot list"

text \<open>\<^verbatim>\<open>SELECT * FROM deals WHERE stage NOT IN ('closed_won','closed_lost') AND
  expected_close IS NOT NULL AND expected_close <= ?\<close>, in table order.\<close>

definition forecast_rows :: "db \<Rightarrow> date \<Rightarrow> deals_row list" where
  "forecast_rows s horizon =
     filter (\<lambda>r. dr_stage r \<notin> {''closed_won'', ''closed_lost''} \<and>
                 (case dr_expected_close r of None \<Rightarrow> False | Some c \<Rightarrow> c \<le> horizon))
            (deals s)"

text \<open>The loop over the rows, on the three variables it updates: the
  \<^verbatim>\<open>defaultdict(float)\<close> \<open>weekly\<close>, \<open>total_expected\<close> and \<open>deals_snapshot\<close>. Subtracting
  from a close date that is \<^verbatim>\<open>None\<close> raises \<^verbatim>\<open>TypeError\<close>.\<close>

fun forecast_loop ::
  "date \<Rightarrow> deals_row list \<Rightarrow> (int \<times> rat) list \<times> rat \<times> deal_snapshot list
     \<Rightarrow> error + (int \<times> rat) list \<times> rat \<times> deal_snapshot list" where
  "forecast_loop today [] acc = Inr acc"
| "forecast_loop today (row # rows) (weekly, total_expected, deals_snapshot) =
     (let d = row_to_deal row;
          weighted = weighted_value d;
          total_expected = total_expected + weighted
      in case d_expected_close d of
           None \<Rightarrow> Inl TypeError
         | Some close_date \<Rightarrow>
             (let week_num = (close_date - today) div 7 + 1;
                  weekly = AList.update week_num
                             ((case map_of weekly week_num of None \<Rightarrow> 0 | Some v \<Rightarrow> v) + weighted)
                             weekly
              in forecast_loop today rows
                   (weekly, total_expected,
                    deals_snapshot @
                      [\<lparr>ds_title = d_title d, ds_value = d_value d,
                        ds_probability = d_probability d, ds_weighted = round2 weighted,
                        ds_expected_close = close_date\<rparr>])))"

definition forecast_revenue :: "db \<Rightarrow> date \<Rightarrow> int \<Rightarrow> error + forecast" where
  "forecast_revenue s today days =
     (case timedelta_days days of
        Inl e \<Rightarrow> Inl e
      | Inr delta \<Rightarrow>
          (case date_plus today delta of
             Inl e \<Rightarrow> Inl e
           | Inr horizon \<Rightarrow>
               (case forecast_loop today (forecast_rows s horizon) ([], 0, []) of
                  Inl e \<Rightarrow> Inl e
                | Inr (weekly, total_expected, deals_snapshot) \<Rightarrow>
                    Inr \<lparr>f_forecast_days = days,
                         f_total_expected = round2 total_expected,
                         f_deal_count = length deals_snapshot,
                         f_weekly_breakdown =
                           fold (\<lambda>kv d. AList.update (week_label (fst kv)) (round2 (snd kv)) d)
                                (sort weekly) [],
                         f_deals = sort_key ds_expected_close deals_snapshot\<rparr>)))"

section \<open>Follow-up queue\<close>

record follow_up =
  fu_contact_id :: string
  fu_name :: string
  fu_email :: string
  fu_company :: string
  fu_days_since_contact :: "int option"
  fu_open_deal_weighted_value :: rat

text \<open>The join of the query, for one contact: its deals that are not closed, provided the
  contact was never contacted or was last contacted before the cutoff.\<close>

definition follow_up_join :: "db \<Rightarrow> datetime \<Rightarrow> contacts_row \<Rightarrow> deals_row list" where
  "follow_up_join s cutoff c =
     filter (\<lambda>d. dr_contact_id d = cr_id c \<and>
                 dr_stage d \<notin> {''closed_won'', ''closed_lost''} \<and>
                 (case cr_last_contact c of None \<Rightarrow> True | Some t \<Rightarrow> t < cutoff))
            (deals s)"

text \<open>\<^verbatim>\<open>SELECT c.id, c.name, c.email, c.company, c.last_contact, SUM(d.value * d.probability)
  as weighted FROM contacts c JOIN deals d ON d.contact_id = c.id WHERE ... GROUP BY c.id
  ORDER BY weighted DESC\<close>. The id is the primary key, so a group is the joined rows of one
  contact, and a contact without joined rows gives no group. The order among equal sums is
  the store's choice; here it is table order.\<close>

definition follow_up_rows :: "db \<Rightarrow> datetime \<Rightarrow> (contacts_row \<times> rat) list" where
  "follow_up_rows s cutoff =
     sort_key (\<lambda>r. - snd r)
       (map (\<lambda>c. (c, sum_list (map (\<lambda>d. dr_value d * dr_probability d) (follow_up_join s cutoff c))))
            (filter (\<lambda>c. follow_up_join s cutoff c \<noteq> []) (contacts s)))"

definition get_follow_up_queue :: "db \<Rightarrow> datetime \<Rightarrow> int \<Rightarrow> error + follow_up list" where
  "get_follow_up_queue s utcnow days_overdue =
     (case timedelta_days days_overdue of
        Inl e \<Rightarrow> Inl e
      | Inr delta \<Rightarrow>
          (case datetime_minus utcnow delta of
             Inl e \<Rightarrow> Inl e
           | Inr cutoff \<Rightarrow>
               Inr (map (\<lambda>r. \<lparr>fu_contact_id = cr_id (fst r), fu_name = cr_name (fst r),
                              fu_email = cr_email (fst r),
                              fu_company = or_empty (cr_company (fst r)),
                              fu_days_since_contact =
                                (case cr_last_contact (fst r) of
                                   None \<Rightarrow> None
                                 | Some last_c \<Rightarrow> Some ((utcnow - last_c) div us_per_day)),
                              fu_open_deal_weighted_value = round2 (snd r)\<rparr>)
                        (follow_up_rows s cutoff))))"

section \<open>States the operations reach\<close>

text \<open>The operations of \<^verbatim>\<open>CRMCore\<close> that write, with their arguments.\<close>

datatype operation =
    AddContact Contact
  | UpdateContact string "(string \<times> pyval) list"
  | LogInteraction string datetime string string string "string option" string
  | AddDeal Deal
  | AdvanceDealStage string string

fun apply_operation :: "db \<Rightarrow> operation \<Rightarrow> db" where
  "apply_operation s (AddContact contact) = fst (add_contact s contact)"
| "apply_operation s (UpdateContact contact_id kwargs) = fst (update_contact s contact_id kwargs)"
| "apply_operation s (LogInteraction uuid4 utcnow contact_id type notes deal_id outcome) =
     fst (log_interaction s uuid4 utcnow contact_id type notes deal_id outcome)"
| "apply_operation s (AddDeal deal) = fst (add_deal s deal)"
| "apply_operation s (AdvanceDealStage deal_id stage) = fst (advance_deal_stage s deal_id stage)"

text \<open>What \<^verbatim>\<open>DDL\<close> declares of the keys: \<^verbatim>\<open>id TEXT PRIMARY KEY\<close> in each table and
  \<^verbatim>\<open>email TEXT UNIQUE\<close> in \<^verbatim>\<open>contacts\<close>.\<close>

definition ddl_keys :: "db \<Rightarrow> bool" where
  "ddl_keys s =
     (distinct (map cr_id (contacts s)) \<and> distinct (map cr_email (contacts s)) \<and>
      distinct (map dr_id (deals s)) \<and> distinct (map ir_id (interactions s)))"

section \<open>Scenarios of \<^verbatim>\<open>tests/test_crm_core.py\<close>\<close>

text \<open>The fixtures \<^verbatim>\<open>alice\<close> and \<^verbatim>\<open>bob\<close>, with ids and creation times chosen for them.\<close>

definition alice :: Contact where
  "alice = \<lparr>c_name = ''Alice Ng'', c_email = ''alice@example.com'', c_id = ''id-alice'',
            c_phone = ''555-0100'', c_company = ''Acme Corp'', c_tags = [''vip'', ''enterprise''],
            c_created_at = 63800000000000000, c_last_contact = None, c_notes = []\<rparr>"

definition bob :: Contact where
  "bob = \<lparr>c_name = ''Bob Smith'', c_email = ''bob@example.com'', c_id = ''id-bob'',
          c_phone = [], c_company = ''Beta LLC'', c_tags = [],
          c_created_at = 63800000000000001, c_last_contact = None, c_notes = []\<rparr>"

definition crm_alice_bob :: db where
  "crm_alice_bob = fst (add_contact (fst (add_contact empty_db alice)) bob)"

text \<open>The two deals of \<^verbatim>\<open>test_deal_pipeline\<close>.\<close>

definition big_deal :: Deal where
  "big_deal = \<lparr>d_contact_id = ''id-alice'', d_title = ''Big Deal'', d_value = 10000,
               d_id = ''id-big'', d_stage = ''proposal'', d_probability = 4 / 10,
               d_expected_close = None, d_created_at = 63800000000000002, d_notes = []\<rparr>"

definition small_deal :: Deal where
  "small_deal = \<lparr>d_contact_id = ''id-bob'', d_title = ''Small Deal'', d_value = 2000,
                 d_id = ''id-small'', d_stage = ''lead'', d_probability = 5 / 100,
                 d_expected_close = None, d_created_at = 63800000000000003, d_notes = []\<rparr>"

definition crm_pipeline :: db where
  "crm_pipeline = fst (add_deal (fst (add_deal crm_alice_bob big_deal)) small_deal)"

text \<open>Alice as a stored contact whose last contact is later than the creation times above.\<close>

definition stale_alice :: db where
  "stale_alice = fst (add_contact empty_db (alice\<lparr>c_last_contact := Some 63900000000000000\<rparr>))"

text \<open>A contact one of whose tags contains the separator.\<close>

definition comma_tag_contact :: Contact where
  "comma_tag_contact = \<lparr>c_name = ''Carol'', c_email = ''carol@example.com'', c_id = ''id-carol'',
      c_phone = [], c_company = [], c_tags = [''a,b''],
      c_created_at = 63800000000000004, c_last_contact = None, c_notes = []\<rparr>"











section \<open>Reading a row of \<^verbatim>\<open>contacts\<close> by the name of a column\<close>

text \<open>What the statement of \<open>update_contact\<close> stores for a keyword value: its text,
  \<^verbatim>\<open>NULL\<close>, or, for the list given as \<^verbatim>\<open>tags\<close>, the comma-joined text.\<close>

definition sql_value :: "pyval \<Rightarrow> string option" where
  "sql_value v = (case v of PyStr t \<Rightarrow> Some t | PyNone \<Rightarrow> None | PyList ts \<Rightarrow> Some (str_join '','' ts))"

text \<open>The six columns that \<open>allowed\<close> names.\<close>

definition contacts_column :: "string \<Rightarrow> contacts_row \<Rightarrow> string option" where
  "contacts_column k r =
     (if k = ''name'' then Some (cr_name r)
      else if k = ''email'' then Some (cr_email r)
      else if k = ''phone'' then cr_phone r
      else if k = ''company'' then cr_company r
      else if k = ''tags'' then cr_tags r
      else if k = ''notes'' then cr_notes r
      else None)"

section \<open>The report entries the claims describe\<close>










section \<open>Properties: lists and lookups\<close>

lemma map_if_no_hit: "k \<notin> f ` set xs \<Longrightarrow> map (\<lambda>r. if f r = k then g r else r) xs = xs"
  by (induction xs) auto

lemma filter_no_hit: "k \<notin> f ` set xs \<Longrightarrow> filter (\<lambda>r. f r = k) xs = []"
  by (induction xs) auto

lemma find_map_if_hit:
  "find (\<lambda>r. f r = k) xs = Some r \<Longrightarrow> (\<And>x. f (g x) = f x) \<Longrightarrow>
   find (\<lambda>r. f r = k) (map (\<lambda>r. if f r = k then g r else r) xs) = Some (g r)"
  by (induction xs) (auto split: if_splits)

lemma find_map_if_other:
  "k' \<noteq> k \<Longrightarrow> (\<And>x. f (g x) = f x) \<Longrightarrow>
   find (\<lambda>r. f r = k') (map (\<lambda>r. if f r = k then g r else r) xs) = find (\<lambda>r. f r = k') xs"
  by (induction xs) (auto split: if_splits)

lemma find_Some_mem: "find P xs = Some x \<Longrightarrow> x \<in> set xs \<and> P x"
  by (induction xs) (auto split: if_splits)


section \<open>Properties: advancing a deal\<close>

lemma stage_probs_keys: "map fst STAGE_PROBS = DEAL_STAGES"
  by (simp add: STAGE_PROBS_def DEAL_STAGES_def)

lemma stage_probs_defined:
  assumes "stage \<in> set DEAL_STAGES"
  shows "\<exists>p. map_of STAGE_PROBS stage = Some p"
proof -
  have "stage \<in> fst ` set STAGE_PROBS"
    using assms by (metis stage_probs_keys set_map)
  then have "map_of STAGE_PROBS stage \<noteq> None"
    by (simp only: map_of_eq_None_iff not_not)
  then show ?thesis by blast
qed

lemma advance_invalid:
  "stage \<notin> set DEAL_STAGES \<Longrightarrow> advance_deal_stage s deal_id stage = (s, Inl ValueError)"
  by (simp add: advance_deal_stage_def)

lemma advance_valid:
  assumes "stage \<in> set DEAL_STAGES" and "map_of STAGE_PROBS stage = Some p"
    and "get_deal s deal_id = Some d"
  shows "snd (advance_deal_stage s deal_id stage) = Inr True"
    and "get_deal (fst (advance_deal_stage s deal_id stage)) deal_id =
           Some (d\<lparr>d_stage := stage, d_probability := p\<rparr>)"
    and "contacts (fst (advance_deal_stage s deal_id stage)) = contacts s"
    and "interactions (fst (advance_deal_stage s deal_id stage)) = interactions s"
proof -
  obtain row where row: "find (\<lambda>r. dr_id r = deal_id) (deals s) = Some row"
    and d: "d = row_to_deal row"
    using assms(3) by (auto simp: get_deal_def split: option.splits)
  have mem: "row \<in> set (deals s)" "dr_id row = deal_id"
    using find_Some_mem [OF row] by auto
  then have "filter (\<lambda>r. dr_id r = deal_id) (deals s) \<noteq> []"
    by (auto simp: filter_empty_conv)
  then show "snd (advance_deal_stage s deal_id stage) = Inr True"
    using assms(1,2) by (simp add: advance_deal_stage_def)
  show "get_deal (fst (advance_deal_stage s deal_id stage)) deal_id =
           Some (d\<lparr>d_stage := stage, d_probability := p\<rparr>)"
    using assms(1,2)
      find_map_if_hit [OF row, of "\<lambda>r. r\<lparr>dr_stage := stage, dr_probability := p\<rparr>"]
    by (simp add: advance_deal_stage_def get_deal_def d row_to_deal_def)
  show "contacts (fst (advance_deal_stage s deal_id stage)) = contacts s"
    using assms(1,2) by (simp add: advance_deal_stage_def)
  show "interactions (fst (advance_deal_stage s deal_id stage)) = interactions s"
    using assms(1,2) by (simp add: advance_deal_stage_def)
qed

lemma advance_other_deal:
  assumes "stage \<in> set DEAL_STAGES" and "other \<noteq> deal_id"
  shows "get_deal (fst (advance_deal_stage s deal_id stage)) other = get_deal s other"
proof -
  obtain p where p: "map_of STAGE_PROBS stage = Some p"
    using stage_probs_defined [OF assms(1)] by blast
  show ?thesis
    using assms p
      find_map_if_other [of other deal_id dr_id
        "\<lambda>r. r\<lparr>dr_stage := stage, dr_probability := p\<rparr>" "deals s"]
    by (simp add: advance_deal_stage_def get_deal_def)
qed

text \<open>
  Claim C4. A stage string outside the six canonical stages makes
  \<open>advance_deal_stage\<close> raise \<open>ValueError\<close> with the store exactly as it was. For a
  canonical stage the lookup table has a probability \<open>p\<close>, and a stored deal with the
  given id is read back with that stage and with probability \<open>p\<close>, whatever its
  probability was, every other field as before, the call returning true, every other
  deal, the contacts and the interactions as before. For \<^verbatim>\<open>"qualified"\<close> that probability
  is 20/100.
\<close>

theorem advance_deal_stage_sets_stage_and_default_probability:
  "(stage \<notin> set DEAL_STAGES \<longrightarrow> advance_deal_stage s deal_id stage = (s, Inl ValueError)) \<and>
   (stage \<in> set DEAL_STAGES \<longrightarrow>
      (\<exists>p. map_of STAGE_PROBS stage = Some p \<and>
         (\<forall>d. get_deal s deal_id = Some d \<longrightarrow>
            snd (advance_deal_stage s deal_id stage) = Inr True \<and>
            get_deal (fst (advance_deal_stage s deal_id stage)) deal_id =
              Some (d\<lparr>d_stage := stage, d_probability := p\<rparr>) \<and>
            (\<forall>other. other \<noteq> deal_id \<longrightarrow>
               get_deal (fst (advance_deal_stage s deal_id stage)) other = get_deal s other) \<and>
            contacts (fst (advance_deal_stage s deal_id stage)) = contacts s \<and>
            interactions (fst (advance_deal_stage s deal_id stage)) = interactions s))) \<and>
   (\<forall>d. get_deal s deal_id = Some d \<longrightarrow>
      get_deal (fst (advance_deal_stage s deal_id ''qualified'')) deal_id =
        Some (d\<lparr>d_stage := ''qualified'', d_probability := 20 / 100\<rparr>))"
proof (intro conjI impI allI)
  assume "stage \<notin> set DEAL_STAGES"
  then show "advance_deal_stage s deal_id stage = (s, Inl ValueError)"
    by (rule advance_invalid)
next
  assume st: "stage \<in> set DEAL_STAGES"
  then obtain p where p: "map_of STAGE_PROBS stage = Some p"
    using stage_probs_defined by blast
  show "\<exists>p. map_of STAGE_PROBS stage = Some p \<and>
         (\<forall>d. get_deal s deal_id = Some d \<longrightarrow>
            snd (advance_deal_stage s deal_id stage) = Inr True \<and>
            get_deal (fst (advance_deal_stage s deal_id stage)) deal_id =
              Some (d\<lparr>d_stage := stage, d_probability := p\<rparr>) \<and>
            (\<forall>other. other \<noteq> deal_id \<longrightarrow>
               get_deal (fst (advance_deal_stage s deal_id stage)) other = get_deal s other) \<and>
            contacts (fst (advance_deal_stage s deal_id stage)) = contacts s \<and>
            interactions (fst (advance_deal_stage s deal_id stage)) = interactions s)"
    using advance_valid [OF st p] advance_other_deal [OF st] p by blast
next
  fix d assume d: "get_deal s deal_id = Some d"
  have q: "''qualified'' \<in> set DEAL_STAGES"
    "map_of STAGE_PROBS ''qualified'' = Some (20 / 100)"
    by (simp_all add: DEAL_STAGES_def STAGE_PROBS_def)
  show "get_deal (fst (advance_deal_stage s deal_id ''qualified'')) deal_id =
        Some (d\<lparr>d_stage := ''qualified'', d_probability := 20 / 100\<rparr>)"
    using advance_valid(2) [OF q d] .
qed

theorem advance_deal_stage_sets_stage_and_default_probability_witness:
  "''won'' \<notin> set DEAL_STAGES \<and> ''qualified'' \<in> set DEAL_STAGES \<and>
   get_deal crm_pipeline ''id-big'' = Some big_deal \<and>
   advance_deal_stage crm_pipeline ''id-big'' ''won'' = (crm_pipeline, Inl ValueError) \<and>
   snd (advance_deal_stage crm_pipeline ''id-big'' ''qualified'') = Inr True \<and>
   get_deal (fst (advance_deal_stage crm_pipeline ''id-big'' ''qualified'')) ''id-big'' =
     Some (big_deal\<lparr>d_stage := ''qualified'', d_probability := 20 / 100\<rparr>)"
proof -
  have h1: "''won'' \<notin> set DEAL_STAGES" by (simp add: DEAL_STAGES_def)
  have h2: "''qualified'' \<in> set DEAL_STAGES" by (simp add: DEAL_STAGES_def)
  have h3: "get_deal crm_pipeline ''id-big'' = Some big_deal" by code_simp
  show ?thesis
    using h1 h2 h3
      advance_deal_stage_sets_stage_and_default_probability
        [of "''won''" crm_pipeline "''id-big''"]
      advance_deal_stage_sets_stage_and_default_probability
        [of "''qualified''" crm_pipeline "''id-big''"]
    by auto
qed

text \<open>
  Claim C10. For a canonical stage and a deal id that no stored deal has,
  \<open>advance_deal_stage\<close> returns false, raises nothing and leaves the store as it was.
\<close>

theorem advance_deal_stage_unknown_id_returns_false:
  assumes "stage \<in> set DEAL_STAGES" and "deal_id \<notin> dr_id ` set (deals s)"
  shows "advance_deal_stage s deal_id stage = (s, Inr False)"
proof -
  obtain p where p: "map_of STAGE_PROBS stage = Some p"
    using stage_probs_defined [OF assms(1)] by blast
  show ?thesis
    using assms p by (simp add: advance_deal_stage_def map_if_no_hit filter_no_hit)
qed

theorem advance_deal_stage_unknown_id_returns_false_witness:
  "''lead'' \<in> set DEAL_STAGES \<and> ''id-none'' \<notin> dr_id ` set (deals crm_pipeline) \<and>
   advance_deal_stage crm_pipeline ''id-none'' ''lead'' = (crm_pipeline, Inr False)"
proof -
  have h1: "''lead'' \<in> set DEAL_STAGES" by (simp add: DEAL_STAGES_def)
  have h2: "''id-none'' \<notin> dr_id ` set (deals crm_pipeline)" by code_simp
  show ?thesis
    using h1 h2 advance_deal_stage_unknown_id_returns_false [OF h1 h2] by simp
qed

section \<open>Properties: logging an interaction\<close>

lemma find_append_fresh:
  "k \<notin> f ` set xs \<Longrightarrow> f row = k \<Longrightarrow> find (\<lambda>r. f r = k) (xs @ [row]) = Some row"
  by (induction xs) auto

lemma log_interaction_fresh:
  assumes "uuid4 \<notin> ir_id ` set (interactions s)"
  shows "log_interaction s uuid4 utcnow c ty notes deal_id outcome =
    (s\<lparr>interactions := interactions s @
          [\<lparr>ir_id = uuid4, ir_contact_id = c, ir_deal_id = deal_id, ir_type = ty,
            ir_notes = notes, ir_outcome = Some outcome, ir_occurred_at = utcnow\<rparr>],
        contacts := map (\<lambda>r. if cr_id r = c then r\<lparr>cr_last_contact := Some utcnow\<rparr> else r)
                        (contacts s)\<rparr>,
     Inr \<lparr>i_contact_id = c, i_type = ty, i_notes = notes, i_id = uuid4,
          i_occurred_at = utcnow, i_deal_id = deal_id, i_outcome = outcome\<rparr>)"
  using assms by (simp add: log_interaction_def insert_interactions_def Let_def)

lemma log_interaction_clash:
  assumes "uuid4 \<in> ir_id ` set (interactions s)"
  shows "log_interaction s uuid4 utcnow c ty notes deal_id outcome = (s, Inl IntegrityError)"
  using assms by (simp add: log_interaction_def insert_interactions_def Let_def)

text \<open>
  Claim C5. When the contact \<open>c\<close> is stored, whatever its last-contact timestamp is
  (an earlier one, a later one or none), \<open>log_interaction\<close> with a fresh interaction
  id returns the interaction, and \<open>get_contact\<close> then gives the contact with
  \<open>last_contact\<close> equal to the interaction's occurrence time and every other field as
  before: the update does not compare with the previous timestamp.
\<close>

theorem log_interaction_overwrites_last_contact:
  assumes "uuid4 \<notin> ir_id ` set (interactions s)" and "get_contact s c = Some old"
  shows "\<exists>s' ix. log_interaction s uuid4 utcnow c ty notes deal_id outcome = (s', Inr ix) \<and>
           i_occurred_at ix = utcnow \<and>
           get_contact s' c = Some (old\<lparr>c_last_contact := Some (i_occurred_at ix)\<rparr>)"
proof -
  obtain row where row: "find (\<lambda>r. cr_id r = c) (contacts s) = Some row"
    and old: "old = row_to_contact row"
    using assms(2) by (auto simp: get_contact_def split: option.splits)
  have "find (\<lambda>r. cr_id r = c)
          (map (\<lambda>r. if cr_id r = c then r\<lparr>cr_last_contact := Some utcnow\<rparr> else r) (contacts s))
        = Some (row\<lparr>cr_last_contact := Some utcnow\<rparr>)"
    using find_map_if_hit [OF row, of "\<lambda>r. r\<lparr>cr_last_contact := Some utcnow\<rparr>"] by simp
  then show ?thesis
    unfolding log_interaction_fresh [OF assms(1)]
    by (simp add: get_contact_def old row_to_contact_def)
qed

theorem log_interaction_overwrites_last_contact_witness:
  "''id-ix'' \<notin> ir_id ` set (interactions stale_alice) \<and>
   get_contact stale_alice ''id-alice'' = Some (alice\<lparr>c_last_contact := Some 63900000000000000\<rparr>) \<and>
   (\<exists>s' ix. log_interaction stale_alice ''id-ix'' 63800000000000005 ''id-alice'' ''call''
               ''Discussed pricing'' None ''positive'' = (s', Inr ix) \<and>
            i_occurred_at ix = 63800000000000005 \<and>
            get_contact s' ''id-alice'' = Some (alice\<lparr>c_last_contact := Some 63800000000000005\<rparr>))"
proof -
  have h1: "''id-ix'' \<notin> ir_id ` set (interactions stale_alice)" by code_simp
  have h2: "get_contact stale_alice ''id-alice'' =
              Some (alice\<lparr>c_last_contact := Some 63900000000000000\<rparr>)" by code_simp
  show ?thesis
    using h1 h2
      log_interaction_overwrites_last_contact [OF h1 h2, of 63800000000000005 "''call''"
        "''Discussed pricing''" None "''positive''"]
    by auto
qed

section \<open>Properties: the keys of the tables\<close>

lemma set_column_id [simp]: "cr_id (set_column kv r) = cr_id r"
  by (simp add: set_column_def split: option.splits)

lemma fold_set_column_id [simp]: "cr_id (fold set_column sets r) = cr_id r"
  by (induction sets arbitrary: r) auto

lemma map_if_id_preserved:
  "(\<And>x. f (g x) = f x) \<Longrightarrow> map f (map (\<lambda>r. if f r = k then g r else r) xs) = map f xs"
  by (induction xs) auto

lemma map_if_field_preserved:
  "(\<And>x. h (g x) = h x) \<Longrightarrow> map h (map (\<lambda>r. if f r = k then g r else r) xs) = map h xs"
  by (induction xs) auto

lemma distinct_emails_update:
  assumes "distinct (map cr_id xs)" and "distinct (map cr_email xs)"
    and "\<forall>r \<in> set xs. cr_id r = cid \<longrightarrow>
           cr_email (g r) \<notin> cr_email ` set (filter (\<lambda>x. cr_id x \<noteq> cid) xs)"
  shows "distinct (map cr_email (map (\<lambda>r. if cr_id r = cid then g r else r) xs))"
  using assms
proof (induction xs)
  case Nil
  then show ?case by simp
next
  case (Cons x xs)
  show ?case
  proof (cases "cr_id x = cid")
    case True
    then have nohit: "cid \<notin> cr_id ` set xs" using Cons.prems(1) by auto
    then have same: "map (\<lambda>r. if cr_id r = cid then g r else r) xs = xs"
      by (rule map_if_no_hit)
    have "filter (\<lambda>x. cr_id x \<noteq> cid) xs = xs"
      using nohit by (induction xs) auto
    then have "cr_email (g x) \<notin> cr_email ` set xs"
      using Cons.prems(3) True by auto
    then show ?thesis using True same Cons.prems(2) by (simp del: map_map)
  next
    case False
    have ih: "distinct (map cr_email (map (\<lambda>r. if cr_id r = cid then g r else r) xs))"
      using Cons.IH Cons.prems False by auto
    have "cr_email x \<notin> cr_email ` set (map (\<lambda>r. if cr_id r = cid then g r else r) xs)"
    proof
      assume "cr_email x \<in> cr_email ` set (map (\<lambda>r. if cr_id r = cid then g r else r) xs)"
      then obtain y where y: "y \<in> set xs"
        and e: "cr_email x = cr_email (if cr_id y = cid then g y else y)" by auto
      show False
      proof (cases "cr_id y = cid")
        case True
        then have "cr_email (g y) \<notin> cr_email ` set (filter (\<lambda>x. cr_id x \<noteq> cid) (x # xs))"
          using Cons.prems(3) y by auto
        then show False using e True False by auto
      next
        case n: False
        then show False using e y Cons.prems(2) by auto
      qed
    qed
    then show ?thesis using False ih by (simp del: map_map)
  qed
qed

lemma update_contacts_cases:
  "update_contacts s sets cid = (s, Inl IntegrityError) \<or>
   (update_contacts s sets cid =
      (s\<lparr>contacts := map (\<lambda>r. if cr_id r = cid then fold set_column sets r else r) (contacts s)\<rparr>,
       Inr (length (filter (\<lambda>r. cr_id r = cid) (contacts s)))) \<and>
    (\<forall>r \<in> set (contacts s). cr_id r = cid \<longrightarrow>
       \<not> not_null_violation sets \<and>
       cr_email (fold set_column sets r)
         \<notin> cr_email ` set (filter (\<lambda>x. cr_id x \<noteq> cid) (contacts s))))"
proof (cases "filter (\<lambda>r. cr_id r = cid) (contacts s) \<noteq> [] \<and>
            (not_null_violation sets \<or>
             (\<exists>r \<in> set (filter (\<lambda>r. cr_id r = cid) (contacts s)).
                cr_email (fold set_column sets r)
                  \<in> cr_email ` set (filter (\<lambda>r. cr_id r \<noteq> cid) (contacts s))))")
  case True
  then have "update_contacts s sets cid = (s, Inl IntegrityError)"
    unfolding update_contacts_def Let_def by (rule if_P)
  then show ?thesis by simp
next
  case False
  then have "update_contacts s sets cid =
      (s\<lparr>contacts := map (\<lambda>r. if cr_id r = cid then fold set_column sets r else r) (contacts s)\<rparr>,
       Inr (length (filter (\<lambda>r. cr_id r = cid) (contacts s))))"
    unfolding update_contacts_def Let_def by (rule if_not_P)
  moreover have "\<forall>r \<in> set (contacts s). cr_id r = cid \<longrightarrow>
       \<not> not_null_violation sets \<and>
       cr_email (fold set_column sets r)
         \<notin> cr_email ` set (filter (\<lambda>x. cr_id x \<noteq> cid) (contacts s))"
    using False by (auto simp: filter_empty_conv)
  ultimately show ?thesis by blast
qed

lemma update_contacts_keys:
  assumes "ddl_keys s"
  shows "ddl_keys (fst (update_contacts s sets cid))"
  using update_contacts_cases [of s sets cid]
proof (elim disjE conjE)
  assume "update_contacts s sets cid = (s, Inl IntegrityError)"
  then show ?thesis using assms by simp
next
  assume st: "update_contacts s sets cid =
      (s\<lparr>contacts := map (\<lambda>r. if cr_id r = cid then fold set_column sets r else r) (contacts s)\<rparr>,
       Inr (length (filter (\<lambda>r. cr_id r = cid) (contacts s))))"
    and c: "\<forall>r \<in> set (contacts s). cr_id r = cid \<longrightarrow>
       \<not> not_null_violation sets \<and>
       cr_email (fold set_column sets r)
         \<notin> cr_email ` set (filter (\<lambda>x. cr_id x \<noteq> cid) (contacts s))"
  have cond: "\<forall>r \<in> set (contacts s). cr_id r = cid \<longrightarrow>
      cr_email (fold set_column sets r) \<notin> cr_email ` set (filter (\<lambda>x. cr_id x \<noteq> cid) (contacts s))"
    using c by blast
  have d1: "distinct (map cr_id (contacts s))" and d2: "distinct (map cr_email (contacts s))"
    using assms by (simp_all add: ddl_keys_def)
  have e: "distinct (map cr_email (map (\<lambda>r. if cr_id r = cid then fold set_column sets r else r) (contacts s)))"
    by (rule distinct_emails_update [OF d1 d2 cond])
  have i: "map cr_id (map (\<lambda>r. if cr_id r = cid then fold set_column sets r else r) (contacts s))
     = map cr_id (contacts s)"
    by (rule map_if_id_preserved) simp
  show ?thesis unfolding st using assms e i by (simp add: ddl_keys_def del: map_map)
qed

lemma update_contact_fst:
  "fst (update_contact s cid kwargs) = s \<or>
   (\<exists>sets. fst (update_contact s cid kwargs) = fst (update_contacts s sets cid))"
proof -
  define updates where "updates =
    (case map_of (filter (\<lambda>kv. fst kv \<in> set allowed) kwargs) ''tags'' of
       Some (PyList ts) \<Rightarrow> AList.update ''tags'' (PyStr (str_join '','' ts))
                            (filter (\<lambda>kv. fst kv \<in> set allowed) kwargs)
     | _ \<Rightarrow> filter (\<lambda>kv. fst kv \<in> set allowed) kwargs)"
  have u: "update_contact s cid kwargs =
     (if updates = [] then (s, Inr False)
      else (case bind_params updates of
              Inl e \<Rightarrow> (s, Inl e)
            | Inr sets \<Rightarrow>
                (case update_contacts s sets cid of
                   (s', Inl e) \<Rightarrow> (s', Inl e)
                 | (s', Inr rowcount) \<Rightarrow> (s', Inr (rowcount > 0)))))"
    by (simp add: update_contact_def updates_def Let_def)
  show ?thesis
  proof (cases "updates = []")
    case True
    then show ?thesis by (simp add: u)
  next
    case False
    show ?thesis
    proof (cases "bind_params updates")
      case (Inl e)
      then show ?thesis using False by (simp add: u)
    next
      case (Inr sets)
      have "fst (update_contact s cid kwargs) = fst (update_contacts s sets cid)"
        using False Inr by (simp add: u split: prod.splits sum.splits)
      then show ?thesis by blast
    qed
  qed
qed

lemma update_contact_keys:
  assumes "ddl_keys s"
  shows "ddl_keys (fst (update_contact s cid kwargs))"
  using update_contact_fst [of s cid kwargs] assms update_contacts_keys by auto

lemma add_contact_keys:
  assumes "ddl_keys s"
  shows "ddl_keys (fst (add_contact s c))"
  using assms by (auto simp: add_contact_def insert_contacts_def ddl_keys_def)

lemma add_deal_keys:
  assumes "ddl_keys s"
  shows "ddl_keys (fst (add_deal s d))"
  using assms by (auto simp: add_deal_def insert_deals_def ddl_keys_def)

lemma log_interaction_keys:
  assumes "ddl_keys s"
  shows "ddl_keys (fst (log_interaction s uuid4 utcnow c ty notes deal_id outcome))"
proof (cases "uuid4 \<in> ir_id ` set (interactions s)")
  case True
  then show ?thesis using assms by (simp add: log_interaction_clash)
next
  case False
  have a: "map cr_id (map (\<lambda>r. if cr_id r = c then r\<lparr>cr_last_contact := Some utcnow\<rparr> else r)
            (contacts s)) = map cr_id (contacts s)"
    by (rule map_if_field_preserved) simp
  have b: "map cr_email (map (\<lambda>r. if cr_id r = c then r\<lparr>cr_last_contact := Some utcnow\<rparr> else r)
            (contacts s)) = map cr_email (contacts s)"
    by (rule map_if_field_preserved) simp
  show ?thesis
    unfolding log_interaction_fresh [OF False]
    using assms False a b by (simp add: ddl_keys_def del: map_map)
qed

lemma advance_deal_stage_keys:
  assumes "ddl_keys s"
  shows "ddl_keys (fst (advance_deal_stage s deal_id stage))"
proof -
  have a: "\<And>p. map dr_id (map (\<lambda>r. if dr_id r = deal_id
              then r\<lparr>dr_stage := stage, dr_probability := p\<rparr> else r) (deals s)) = map dr_id (deals s)"
    by (rule map_if_field_preserved) simp
  show ?thesis
    using assms a by (auto simp add: advance_deal_stage_def ddl_keys_def simp del: map_map split: option.splits)
qed

lemma apply_operation_keys: "ddl_keys s \<Longrightarrow> ddl_keys (apply_operation s op)"
  by (cases op)
     (simp_all add: add_contact_keys update_contact_keys log_interaction_keys add_deal_keys
        advance_deal_stage_keys)

lemma foldl_apply_operation_keys: "ddl_keys s \<Longrightarrow> ddl_keys (foldl apply_operation s ops)"
  by (induction ops arbitrary: s) (simp_all add: apply_operation_keys)

lemma empty_db_keys: "ddl_keys empty_db"
  by (simp add: ddl_keys_def empty_db_def)

lemma add_contact_duplicate_email:
  "c_email c \<in> cr_email ` set (contacts s) \<Longrightarrow> add_contact s c = (s, Inl IntegrityError)"
  by (simp add: add_contact_def insert_contacts_def)

text \<open>
  Claim C7. Every writing operation keeps the keys that \<^verbatim>\<open>DDL\<close> declares, the unique
  email among them; so in every state reached from the empty store by any sequence of
  operations the stored emails are pairwise distinct. \<open>add_contact\<close> with an email
  that a stored contact has raises \<open>IntegrityError\<close> and leaves the store, hence the
  contacts table, as it was.
\<close>

theorem contact_emails_stay_unique:
  "(ddl_keys s \<longrightarrow> ddl_keys (apply_operation s op)) \<and>
   distinct (map cr_email (contacts (foldl apply_operation empty_db ops))) \<and>
   (c_email c \<in> cr_email ` set (contacts s) \<longrightarrow> add_contact s c = (s, Inl IntegrityError))"
proof (intro conjI impI)
  assume "ddl_keys s"
  then show "ddl_keys (apply_operation s op)" by (rule apply_operation_keys)
next
  have "ddl_keys (foldl apply_operation empty_db ops)"
    by (rule foldl_apply_operation_keys [OF empty_db_keys])
  then show "distinct (map cr_email (contacts (foldl apply_operation empty_db ops)))"
    by (simp add: ddl_keys_def)
next
  assume "c_email c \<in> cr_email ` set (contacts s)"
  then show "add_contact s c = (s, Inl IntegrityError)" by (rule add_contact_duplicate_email)
qed

theorem contact_emails_stay_unique_witness:
  "ddl_keys crm_alice_bob \<and>
   c_email (bob\<lparr>c_id := ''id-bob-2''\<rparr>) \<in> cr_email ` set (contacts crm_alice_bob) \<and>
   ddl_keys (apply_operation crm_alice_bob
               (UpdateContact ''id-bob'' [(''email'', PyStr ''alice@example.com'')])) \<and>
   add_contact crm_alice_bob (bob\<lparr>c_id := ''id-bob-2''\<rparr>) = (crm_alice_bob, Inl IntegrityError)"
proof -
  have h1: "ddl_keys crm_alice_bob" by code_simp
  have h2: "c_email (bob\<lparr>c_id := ''id-bob-2''\<rparr>) \<in> cr_email ` set (contacts crm_alice_bob)"
    by code_simp
  show ?thesis
    using h1 h2
      contact_emails_stay_unique [of crm_alice_bob
        "UpdateContact ''id-bob'' [(''email'', PyStr ''alice@example.com'')]" "[]"
        "bob\<lparr>c_id := ''id-bob-2''\<rparr>"]
    by blast
qed

section \<open>Properties: adding and reading a contact\<close>

lemma str_split_not_Nil [simp]: "str_split c xs \<noteq> []"
  by (induction xs) (auto split: list.splits)

lemma str_split_no_sep: "c \<notin> set t \<Longrightarrow> str_split c t = [t]"
  by (induction t) auto

lemma str_split_append_sep:
  "c \<notin> set t \<Longrightarrow> str_split c (t @ c # rest) = t # str_split c rest"
  by (induction t) auto

lemma split_join_tags:
  "\<forall>t \<in> set ts. t \<noteq> [] \<and> c \<notin> set t \<Longrightarrow>
   filter (\<lambda>t. t \<noteq> []) (str_split c (str_join [c] ts)) = ts"
proof (induction "[c]" ts rule: str_join.induct)
  case 1
  then show ?case by simp
next
  case (2 x)
  then show ?case by (simp add: str_split_no_sep)
next
  case (3 x y ys)
  then show ?case by (simp add: str_split_append_sep)
qed

lemma add_contact_fresh:
  assumes "c_id c \<notin> cr_id ` set (contacts s)" and "c_email c \<notin> cr_email ` set (contacts s)"
  shows "add_contact s c =
    (s\<lparr>contacts := contacts s @
         [\<lparr>cr_id = c_id c, cr_name = c_name c, cr_email = c_email c,
           cr_phone = Some (c_phone c), cr_company = Some (c_company c),
           cr_tags = Some (str_join '','' (c_tags c)), cr_notes = Some (c_notes c),
           cr_created_at = c_created_at c, cr_last_contact = c_last_contact c\<rparr>]\<rparr>, Inr c)"
  using assms by (simp add: add_contact_def insert_contacts_def)

lemma row_to_contact_inserted:
  "row_to_contact \<lparr>cr_id = c_id c, cr_name = c_name c, cr_email = c_email c,
           cr_phone = Some (c_phone c), cr_company = Some (c_company c),
           cr_tags = Some (str_join '','' (c_tags c)), cr_notes = Some (c_notes c),
           cr_created_at = c_created_at c, cr_last_contact = c_last_contact c\<rparr>
   = c\<lparr>c_tags := filter (\<lambda>t. t \<noteq> []) (str_split CHR '','' (str_join '','' (c_tags c)))\<rparr>"
  by (simp add: row_to_contact_def or_empty_def)

text \<open>
  Claim C6, amended. A contact whose id and email are not yet stored is inserted by
  \<open>add_contact\<close>, and then \<open>get_contact\<close> on its id and \<open>find_contact_by_email\<close> on
  its email return the same contact: name, email, id, phone, company, notes, creation time
  and last contact as inserted, and for tags the non-empty pieces between the commas of
  the comma-joined text. These are the inserted tags, so that the contact read equals the
  contact inserted, whenever no inserted tag is empty or contains a comma.
\<close>

theorem add_contact_round_trip:
  assumes "c_id c \<notin> cr_id ` set (contacts s)" and "c_email c \<notin> cr_email ` set (contacts s)"
  shows "\<exists>s'. add_contact s c = (s', Inr c) \<and>
           get_contact s' (c_id c) =
             Some (c\<lparr>c_tags := filter (\<lambda>t. t \<noteq> []) (str_split CHR '','' (str_join '','' (c_tags c)))\<rparr>) \<and>
           find_contact_by_email s' (c_email c) = get_contact s' (c_id c) \<and>
           ((\<forall>t \<in> set (c_tags c). t \<noteq> [] \<and> CHR '','' \<notin> set t) \<longrightarrow>
              get_contact s' (c_id c) = Some c \<and> find_contact_by_email s' (c_email c) = Some c)"
proof -
  let ?row = "\<lparr>cr_id = c_id c, cr_name = c_name c, cr_email = c_email c,
           cr_phone = Some (c_phone c), cr_company = Some (c_company c),
           cr_tags = Some (str_join '','' (c_tags c)), cr_notes = Some (c_notes c),
           cr_created_at = c_created_at c, cr_last_contact = c_last_contact c\<rparr>"
  let ?s' = "s\<lparr>contacts := contacts s @ [?row]\<rparr>"
  have a: "add_contact s c = (?s', Inr c)" by (rule add_contact_fresh [OF assms])
  have f1: "find (\<lambda>r. cr_id r = c_id c) (contacts s @ [?row]) = Some ?row"
    by (rule find_append_fresh [OF assms(1)]) simp
  have f2: "find (\<lambda>r. cr_email r = c_email c) (contacts s @ [?row]) = Some ?row"
    by (rule find_append_fresh [OF assms(2)]) simp
  have g: "get_contact ?s' (c_id c) =
      Some (c\<lparr>c_tags := filter (\<lambda>t. t \<noteq> []) (str_split CHR '','' (str_join '','' (c_tags c)))\<rparr>)"
    using f1 by (simp add: get_contact_def row_to_contact_inserted)
  have e: "find_contact_by_email ?s' (c_email c) = get_contact ?s' (c_id c)"
    using f1 f2 by (simp add: get_contact_def find_contact_by_email_def)
  have t: "(\<forall>t \<in> set (c_tags c). t \<noteq> [] \<and> CHR '','' \<notin> set t) \<longrightarrow>
      c\<lparr>c_tags := filter (\<lambda>t. t \<noteq> []) (str_split CHR '','' (str_join '','' (c_tags c)))\<rparr> = c"
    using split_join_tags [of "c_tags c" "CHR '',''"] by simp
  show ?thesis using a g e t by (intro exI [of _ ?s']) simp
qed

theorem add_contact_round_trip_witness:
  "c_id alice \<notin> cr_id ` set (contacts empty_db) \<and>
   c_email alice \<notin> cr_email ` set (contacts empty_db) \<and>
   list_all (\<lambda>t. t \<noteq> [] \<and> CHR '','' \<notin> set t) (c_tags alice) \<and>
   (\<exists>s'. add_contact empty_db alice = (s', Inr alice) \<and>
         get_contact s' (c_id alice) = Some alice \<and>
         find_contact_by_email s' (c_email alice) = Some alice)"
proof -
  have h1: "c_id alice \<notin> cr_id ` set (contacts empty_db)" by (simp add: empty_db_def)
  have h2: "c_email alice \<notin> cr_email ` set (contacts empty_db)" by (simp add: empty_db_def)
  have h3: "\<forall>t \<in> set (c_tags alice). t \<noteq> [] \<and> CHR '','' \<notin> set t" by (simp add: alice_def)
  show ?thesis
    using h1 h2 h3 add_contact_round_trip [OF h1 h2] by (auto simp: list_all_iff)
qed

text \<open>
  The claim as stated fails for a tag with a comma: the contact is inserted, and read back
  with two tags instead of one.
\<close>

theorem add_contact_round_trip_counterexample:
  "add_contact empty_db comma_tag_contact =
     (fst (add_contact empty_db comma_tag_contact), Inr comma_tag_contact) \<and>
   get_contact (fst (add_contact empty_db comma_tag_contact)) (c_id comma_tag_contact) =
     Some (comma_tag_contact\<lparr>c_tags := [''a'', ''b'']\<rparr>) \<and>
   get_contact (fst (add_contact empty_db comma_tag_contact)) (c_id comma_tag_contact) \<noteq>
     Some comma_tag_contact"
  by code_simp

section \<open>Properties: updating a contact\<close>

lemma bind_params_no_list:
  "\<forall>kv \<in> set xs. \<forall>ts. snd kv \<noteq> PyList ts \<Longrightarrow>
   bind_params xs = Inr (map (\<lambda>kv. (fst kv, sql_value (snd kv))) xs)"
proof (induction xs)
  case Nil
  then show ?case by simp
next
  case (Cons kv xs)
  obtain k v where kv: "kv = (k, v)" by (cases kv)
  show ?case using Cons kv by (cases v) (auto simp: sql_value_def)
qed

lemma alist_update_as_map:
  "distinct (map fst xs) \<Longrightarrow> map_of xs k = Some v \<Longrightarrow>
   AList.update k v' xs = map (\<lambda>kv. if fst kv = k then (k, v') else kv) xs"
proof (induction xs)
  case Nil
  then show ?case by simp
next
  case (Cons a xs)
  show ?case
  proof (cases "fst a = k")
    case True
    then have "k \<notin> fst ` set xs" using Cons.prems(1) by auto
    then have "map (\<lambda>kv. if fst kv = k then (k, v') else kv) xs = xs"
      by (induction xs) auto
    then show ?thesis using True by (cases a) simp
  next
    case False
    then show ?thesis using Cons by (cases a) auto
  qed
qed

lemma map_of_filter_keys:
  "map_of (filter (\<lambda>kv. fst kv \<in> A) xs) k = (if k \<in> A then map_of xs k else None)"
  by (induction xs) auto

lemma map_of_sql_values:
  "map_of (map (\<lambda>kv. (fst kv, f (snd kv))) xs) k = map_option f (map_of xs k)"
  by (induction xs) auto

lemma update_contact_unfold:
  assumes d: "distinct (map fst kwargs)"
    and b: "\<forall>kv \<in> set kwargs. fst kv \<in> set allowed \<longrightarrow> fst kv \<noteq> ''tags'' \<longrightarrow> (\<forall>ts. snd kv \<noteq> PyList ts)"
  shows "update_contact s cid kwargs =
     (if filter (\<lambda>kv. fst kv \<in> set allowed) kwargs = [] then (s, Inr False)
      else (case update_contacts s
                   (map (\<lambda>kv. (fst kv, sql_value (snd kv)))
                        (filter (\<lambda>kv. fst kv \<in> set allowed) kwargs)) cid of
              (s', Inl e) \<Rightarrow> (s', Inl e)
            | (s', Inr rowcount) \<Rightarrow> (s', Inr (rowcount > 0))))"
proof -
  let ?u0 = "filter (\<lambda>kv. fst kv \<in> set allowed) kwargs"
  define u where "u =
    (case map_of ?u0 ''tags'' of
       Some (PyList ts) \<Rightarrow> AList.update ''tags'' (PyStr (str_join '','' ts)) ?u0
     | _ \<Rightarrow> ?u0)"
  have d0: "distinct (map fst ?u0)" using d by (rule distinct_map_filter)
  have mem: "\<And>kv. kv \<in> set ?u0 \<Longrightarrow> map_of ?u0 (fst kv) = Some (snd kv)"
    using d0 by (simp add: map_of_eq_Some_iff)
  have bu: "bind_params u = Inr (map (\<lambda>kv. (fst kv, sql_value (snd kv))) ?u0) \<and> (u = [] \<longleftrightarrow> ?u0 = [])"
  proof (cases "\<exists>ts. map_of ?u0 ''tags'' = Some (PyList ts)")
    case True
    then obtain ts where ts: "map_of ?u0 ''tags'' = Some (PyList ts)" by blast
    have u1: "u = map (\<lambda>kv. if fst kv = ''tags'' then (''tags'', PyStr (str_join '','' ts)) else kv) ?u0"
      unfolding u_def ts using alist_update_as_map [OF d0 ts] by simp
    have nolist: "\<forall>kv \<in> set u. \<forall>ts. snd kv \<noteq> PyList ts"
      unfolding u1 using b by auto
    have same: "map (\<lambda>kv. (fst kv, sql_value (snd kv))) u = map (\<lambda>kv. (fst kv, sql_value (snd kv))) ?u0"
    proof -
      have tg: "\<And>kv. kv \<in> set ?u0 \<Longrightarrow> fst kv = ''tags'' \<Longrightarrow> snd kv = PyList ts"
        using mem ts by fastforce
      have "(fst (if fst kv = ''tags'' then (''tags'', PyStr (str_join '','' ts)) else kv),
           sql_value (snd (if fst kv = ''tags'' then (''tags'', PyStr (str_join '','' ts)) else kv)))
          = (fst kv, sql_value (snd kv))" if kv: "kv \<in> set ?u0" for kv
      proof (cases "fst kv = ''tags''")
        case True
        have "snd kv = PyList ts" by (rule tg [OF kv True])
        then show ?thesis using True by (simp add: sql_value_def)
      next
        case False
        then show ?thesis by simp
      qed
      then show ?thesis unfolding u1 map_map comp_def by (intro map_cong refl)
    qed
    show ?thesis using bind_params_no_list [OF nolist] same u1 by simp
  next
    case False
    then have u0: "u = ?u0"
      unfolding u_def by (auto split: option.splits pyval.splits)
    have nolist: "\<forall>kv \<in> set ?u0. \<forall>ts. snd kv \<noteq> PyList ts"
    proof (intro ballI allI)
      fix kv ts assume kv: "kv \<in> set ?u0"
      show "snd kv \<noteq> PyList ts"
      proof (cases "fst kv = ''tags''")
        case True
        then show ?thesis using mem [OF kv] False by auto
      next
        case f: False
        then show ?thesis using b kv by auto
      qed
    qed
    show ?thesis using bind_params_no_list [OF nolist] u0 by simp
  qed
  have "update_contact s cid kwargs =
     (if u = [] then (s, Inr False)
      else (case bind_params u of
              Inl e \<Rightarrow> (s, Inl e)
            | Inr sets \<Rightarrow>
                (case update_contacts s sets cid of
                   (s', Inl e) \<Rightarrow> (s', Inl e)
                 | (s', Inr rowcount) \<Rightarrow> (s', Inr (rowcount > 0)))))"
    by (simp add: update_contact_def u_def Let_def)
  then show ?thesis using bu by simp
qed

lemma allowed_cases:
  "k \<in> set allowed \<Longrightarrow>
   k = ''name'' \<or> k = ''email'' \<or> k = ''phone'' \<or> k = ''company'' \<or> k = ''tags'' \<or> k = ''notes''"
  by (simp add: allowed_def)

lemma set_column_other:
  "fst kv \<noteq> k \<Longrightarrow> contacts_column k (set_column kv r) = contacts_column k r"
  by (auto simp: set_column_def contacts_column_def split: option.splits)

lemma set_column_same:
  assumes "k \<in> set allowed" and "fst kv = k" and "k \<in> {''name'', ''email''} \<longrightarrow> snd kv \<noteq> None"
  shows "contacts_column k (set_column kv r) = snd kv"
  using allowed_cases [OF assms(1)] assms(2,3)
  by (elim disjE) (auto simp: set_column_def contacts_column_def split: option.splits)

lemma set_column_fixed [simp]:
  "cr_created_at (set_column kv r) = cr_created_at r"
  "cr_last_contact (set_column kv r) = cr_last_contact r"
  by (simp_all add: set_column_def split: option.splits)

lemma fold_set_column_fixed [simp]:
  "cr_created_at (fold set_column sets r) = cr_created_at r"
  "cr_last_contact (fold set_column sets r) = cr_last_contact r"
  by (induction sets arbitrary: r) auto

lemma fold_set_column_column:
  assumes "distinct (map fst sets)" and "\<not> not_null_violation sets" and "k \<in> set allowed"
  shows "contacts_column k (fold set_column sets r) =
           (case map_of sets k of None \<Rightarrow> contacts_column k r | Some v \<Rightarrow> v)"
  using assms(1,2)
proof (induction sets arbitrary: r)
  case Nil
  then show ?case by simp
next
  case (Cons kv sets)
  have nv: "\<not> not_null_violation sets"
    using Cons.prems(2) by (simp add: not_null_violation_def)
  have ih: "contacts_column k (fold set_column sets (set_column kv r)) =
           (case map_of sets k of None \<Rightarrow> contacts_column k (set_column kv r) | Some v \<Rightarrow> v)"
    using Cons.IH [OF _ nv] Cons.prems(1) by simp
  show ?case
  proof (cases "fst kv = k")
    case True
    then have "k \<notin> fst ` set sets" using Cons.prems(1) by auto
    then have none: "map_of sets k = None" by (simp add: map_of_eq_None_iff)
    have "k \<in> {''name'', ''email''} \<longrightarrow> snd kv \<noteq> None"
      using Cons.prems(2) True by (auto simp: not_null_violation_def)
    then have "contacts_column k (set_column kv r) = snd kv"
      using set_column_same [OF assms(3) True] by blast
    then show ?thesis using ih none True by (cases kv) auto
  next
    case False
    then show ?thesis using ih set_column_other [OF False, of r]
      by (cases kv) (auto split: option.splits)
  qed
qed

lemma cr_email_column: "contacts_column ''email'' r = Some (cr_email r)"
  by (simp add: contacts_column_def)

lemma filter_unique_key:
  "distinct (map f xs) \<Longrightarrow> r \<in> set xs \<Longrightarrow> filter (\<lambda>x. f x = f r) xs = [r]"
proof (induction xs)
  case Nil
  then show ?case by simp
next
  case (Cons a xs)
  show ?case
  proof (cases "a = r")
    case True
    then have "f r \<notin> f ` set xs" using Cons.prems(1) by auto
    then have "filter (\<lambda>x. f x = f r) xs = []" by (rule filter_no_hit)
    then show ?thesis using True by simp
  next
    case False
    then have "r \<in> set xs" using Cons.prems(2) by auto
    moreover from this have "f a \<noteq> f r" using Cons.prems(1) by auto
    ultimately show ?thesis using Cons by auto
  qed
qed

lemma map_if_unique_key:
  "distinct (map f xs) \<Longrightarrow> r \<in> set xs \<Longrightarrow>
   map (\<lambda>x. if f x = f r then g x else x) xs = map (\<lambda>x. if f x = f r then g r else x) xs"
proof -
  assume d: "distinct (map f xs)" and r: "r \<in> set xs"
  have "\<And>x. x \<in> set xs \<Longrightarrow> f x = f r \<Longrightarrow> x = r"
    using d r by (meson distinct_map inj_onD)
  then show ?thesis by (intro map_cong refl) auto
qed

lemma not_null_violation_map_of:
  assumes "distinct (map fst sets)"
  shows "not_null_violation sets \<longleftrightarrow>
           map_of sets ''name'' = Some None \<or> map_of sets ''email'' = Some None"
proof
  assume "not_null_violation sets"
  then obtain kv where kv: "kv \<in> set sets" "fst kv = ''name'' \<or> fst kv = ''email''" "snd kv = None"
    by (auto simp: not_null_violation_def)
  have "map_of sets (fst kv) = Some (snd kv)"
    using assms kv(1) by (simp add: map_of_eq_Some_iff)
  then show "map_of sets ''name'' = Some None \<or> map_of sets ''email'' = Some None"
    using kv(2,3) by auto
next
  assume "map_of sets ''name'' = Some None \<or> map_of sets ''email'' = Some None"
  then have "(''name'', None) \<in> set sets \<or> (''email'', None) \<in> set sets"
    by (auto dest: map_of_SomeD)
  then show "not_null_violation sets"
    unfolding not_null_violation_def by force
qed

lemma sql_value_None_iff: "sql_value v = None \<longleftrightarrow> v = PyNone"
  by (cases v) (simp_all add: sql_value_def)

lemma other_emails_differ:
  assumes "ddl_keys s" and "r \<in> set (contacts s)"
  shows "cr_email r \<notin> cr_email ` set (filter (\<lambda>x. cr_id x \<noteq> cr_id r) (contacts s))"
proof
  assume "cr_email r \<in> cr_email ` set (filter (\<lambda>x. cr_id x \<noteq> cr_id r) (contacts s))"
  then obtain x where x: "x \<in> set (contacts s)" "cr_id x \<noteq> cr_id r" "cr_email x = cr_email r"
    by auto
  have "inj_on cr_email (set (contacts s))"
    using assms(1) by (simp add: ddl_keys_def distinct_map)
  then have "x = r" using x(1,3) assms(2) by (meson inj_onD)
  then show False using x(2) by simp
qed

lemma update_contacts_miss:
  assumes "cid \<notin> cr_id ` set (contacts s)"
  shows "update_contacts s sets cid = (s, Inr 0)"
  using assms by (simp add: update_contacts_def Let_def filter_no_hit map_if_no_hit)

lemma update_contact_no_field:
  assumes "\<forall>kv \<in> set kwargs. fst kv \<notin> set allowed"
  shows "update_contact s cid kwargs = (s, Inr False)"
proof -
  have "filter (\<lambda>kv. fst kv \<in> set allowed) kwargs = []"
    using assms by (simp add: filter_empty_conv)
  then show ?thesis by (simp add: update_contact_def)
qed

lemma update_contact_hit:
  assumes keys: "ddl_keys s" and d: "distinct (map fst kwargs)"
    and b: "\<forall>kv \<in> set kwargs. fst kv \<in> set allowed \<longrightarrow> fst kv \<noteq> ''tags'' \<longrightarrow>
              (\<forall>ts. snd kv \<noteq> PyList ts)"
    and some: "\<exists>kv \<in> set kwargs. fst kv \<in> set allowed"
    and r: "find (\<lambda>x. cr_id x = cid) (contacts s) = Some r"
  shows "if map_of kwargs ''name'' = Some PyNone \<or> map_of kwargs ''email'' = Some PyNone \<or>
            (\<exists>t. map_of kwargs ''email'' = Some (PyStr t) \<and>
                 t \<in> cr_email ` set (filter (\<lambda>x. cr_id x \<noteq> cid) (contacts s)))
         then update_contact s cid kwargs = (s, Inl IntegrityError)
         else \<exists>s' r'. update_contact s cid kwargs = (s', Inr True) \<and>
                contacts s' = map (\<lambda>x. if cr_id x = cid then r' else x) (contacts s) \<and>
                deals s' = deals s \<and> interactions s' = interactions s \<and>
                cr_id r' = cid \<and> cr_created_at r' = cr_created_at r \<and>
                cr_last_contact r' = cr_last_contact r \<and>
                (\<forall>k \<in> set allowed.
                   contacts_column k r' =
                     (case map_of kwargs k of
                        None \<Rightarrow> contacts_column k r
                      | Some v \<Rightarrow> sql_value v))"
proof -
  let ?u0 = "filter (\<lambda>kv. fst kv \<in> set allowed) kwargs"
  define sets where "sets = map (\<lambda>kv. (fst kv, sql_value (snd kv))) ?u0"
  have u0: "?u0 \<noteq> []" using some by (auto simp: filter_empty_conv)
  have uc: "update_contact s cid kwargs =
      (case update_contacts s sets cid of
         (s', Inl e) \<Rightarrow> (s', Inl e)
       | (s', Inr rowcount) \<Rightarrow> (s', Inr (rowcount > 0)))"
    using update_contact_unfold [OF d b, of s cid] u0 by (simp add: sets_def)
  have ds: "distinct (map fst sets)"
    unfolding sets_def using distinct_map_filter [OF d] by (simp add: comp_def)
  have ms: "map_of sets k = map_option sql_value (map_of kwargs k)" if "k \<in> set allowed" for k
    unfolding sets_def using that by (simp add: map_of_sql_values map_of_filter_keys)
  have al: "''name'' \<in> set allowed" "''email'' \<in> set allowed" by (simp_all add: allowed_def)
  have nnv: "not_null_violation sets \<longleftrightarrow>
      map_of kwargs ''name'' = Some PyNone \<or> map_of kwargs ''email'' = Some PyNone"
    unfolding not_null_violation_map_of [OF ds] ms [OF al(1)] ms [OF al(2)]
    by (auto simp: sql_value_None_iff)
  have rmem: "r \<in> set (contacts s)" and rid: "cr_id r = cid"
    using find_Some_mem [OF r] by auto
  have idd: "distinct (map cr_id (contacts s))" using keys by (simp add: ddl_keys_def)
  have hit: "filter (\<lambda>x. cr_id x = cid) (contacts s) = [r]"
    using filter_unique_key [OF idd rmem] rid by simp
  define r' where "r' = fold set_column sets r"
  have newmap: "map (\<lambda>x. if cr_id x = cid then fold set_column sets x else x) (contacts s)
      = map (\<lambda>x. if cr_id x = cid then r' else x) (contacts s)"
    using map_if_unique_key [OF idd rmem, of "fold set_column sets"] rid by (simp add: r'_def)
  have nolist: "\<And>ts. map_of kwargs ''email'' \<noteq> Some (PyList ts)"
  proof
    fix ts assume "map_of kwargs ''email'' = Some (PyList ts)"
    then have "(''email'', PyList ts) \<in> set kwargs" by (rule map_of_SomeD)
    then show False using b al(2) by fastforce
  qed
  have email': "\<not> not_null_violation sets \<Longrightarrow>
      cr_email r' = (case map_of kwargs ''email'' of Some (PyStr t) \<Rightarrow> t | _ \<Rightarrow> cr_email r)"
  proof -
    assume n: "\<not> not_null_violation sets"
    have "contacts_column ''email'' r' =
            (case map_of sets ''email'' of None \<Rightarrow> contacts_column ''email'' r | Some v \<Rightarrow> v)"
      unfolding r'_def by (rule fold_set_column_column [OF ds n al(2)])
    then have e: "Some (cr_email r') =
            (case map_of kwargs ''email'' of None \<Rightarrow> Some (cr_email r) | Some v \<Rightarrow> sql_value v)"
      unfolding cr_email_column ms [OF al(2)] by (simp split: option.splits)
    show ?thesis
    proof (cases "map_of kwargs ''email''")
      case None
      then show ?thesis using e by simp
    next
      case (Some v)
      have "v \<noteq> PyNone" using n nnv Some by simp
      moreover have "\<And>ts. v \<noteq> PyList ts" using nolist Some by simp
      ultimately obtain t where "v = PyStr t" by (cases v) auto
      then show ?thesis using e Some by (simp add: sql_value_def)
    qed
  qed
  let ?other = "filter (\<lambda>x. cr_id x \<noteq> cid) (contacts s)"
  have own: "cr_email r \<notin> cr_email ` set ?other"
    using other_emails_differ [OF keys rmem] rid by simp
  let ?viol = "map_of kwargs ''name'' = Some PyNone \<or> map_of kwargs ''email'' = Some PyNone \<or>
            (\<exists>t. map_of kwargs ''email'' = Some (PyStr t) \<and> t \<in> cr_email ` set ?other)"
  have cond: "(filter (\<lambda>r. cr_id r = cid) (contacts s) \<noteq> [] \<and>
            (not_null_violation sets \<or>
             (\<exists>r \<in> set (filter (\<lambda>r. cr_id r = cid) (contacts s)).
                cr_email (fold set_column sets r) \<in> cr_email ` set ?other))) \<longleftrightarrow> ?viol"
  proof (cases "not_null_violation sets")
    case True
    then show ?thesis using nnv hit by auto
  next
    case False
    have "cr_email r' \<in> cr_email ` set ?other \<longleftrightarrow>
          (\<exists>t. map_of kwargs ''email'' = Some (PyStr t) \<and> t \<in> cr_email ` set ?other)"
      unfolding email' [OF False] using own
      by (auto split: option.splits pyval.splits)
    then show ?thesis using False nnv hit by (simp add: r'_def)
  qed
  show ?thesis
  proof (cases ?viol)
    case True
    then have "update_contacts s sets cid = (s, Inl IntegrityError)"
      unfolding update_contacts_def Let_def using cond by (simp only: if_True)
    then show ?thesis using True uc by simp
  next
    case False
    then have upd: "update_contacts s sets cid =
        (s\<lparr>contacts := map (\<lambda>x. if cr_id x = cid then r' else x) (contacts s)\<rparr>, Inr 1)"
      unfolding update_contacts_def Let_def using cond newmap hit by simp
    have n: "\<not> not_null_violation sets" using False nnv by simp
    have cols: "\<forall>k \<in> set allowed. contacts_column k r' =
         (case map_of kwargs k of None \<Rightarrow> contacts_column k r | Some v \<Rightarrow> sql_value v)"
    proof
      fix k assume k: "k \<in> set allowed"
      have "contacts_column k r' =
            (case map_of sets k of None \<Rightarrow> contacts_column k r | Some v \<Rightarrow> v)"
        unfolding r'_def by (rule fold_set_column_column [OF ds n k])
      then show "contacts_column k r' =
         (case map_of kwargs k of None \<Rightarrow> contacts_column k r | Some v \<Rightarrow> sql_value v)"
        unfolding ms [OF k] by (simp split: option.splits)
    qed
    have fixed: "cr_id r' = cid" "cr_created_at r' = cr_created_at r"
      "cr_last_contact r' = cr_last_contact r"
      using rid by (simp_all add: r'_def)
    let ?s' = "s\<lparr>contacts := map (\<lambda>x. if cr_id x = cid then r' else x) (contacts s)\<rparr>"
    have res: "update_contact s cid kwargs = (?s', Inr True)"
      using uc upd by simp
    have "\<exists>s' r'. update_contact s cid kwargs = (s', Inr True) \<and>
                contacts s' = map (\<lambda>x. if cr_id x = cid then r' else x) (contacts s) \<and>
                deals s' = deals s \<and> interactions s' = interactions s \<and>
                cr_id r' = cid \<and> cr_created_at r' = cr_created_at r \<and>
                cr_last_contact r' = cr_last_contact r \<and>
                (\<forall>k \<in> set allowed.
                   contacts_column k r' =
                     (case map_of kwargs k of
                        None \<Rightarrow> contacts_column k r
                      | Some v \<Rightarrow> sql_value v))"
      by (rule exI [of _ ?s'], rule exI [of _ r']) (use res cols fixed in simp)
    then show ?thesis unfolding if_not_P [OF False] .
  qed
qed

text \<open>
  Claim C9, amended. Let the keyword arguments be a dictionary in which a list is given
  for \<^verbatim>\<open>tags\<close> only, and let the store satisfy the keys of \<^verbatim>\<open>DDL\<close>. If no supplied name
  is whitelisted, or the id matches no stored contact, \<open>update_contact\<close> returns false
  and changes nothing. If a supplied name is whitelisted and the id matches a contact,
  then: when \<^verbatim>\<open>None\<close> is supplied for \<^verbatim>\<open>name\<close> or \<^verbatim>\<open>email\<close>, or the supplied email is that
  of another contact, the call raises \<open>IntegrityError\<close> and changes nothing; otherwise it
  returns true, the row of that contact holds the supplied value in each supplied
  whitelisted column and its former value in every other column, and every other row, the
  deals and the interactions are as before.
\<close>

theorem update_contact_result:
  assumes keys: "ddl_keys s" and d: "distinct (map fst kwargs)"
    and b: "\<forall>kv \<in> set kwargs. fst kv \<in> set allowed \<longrightarrow> fst kv \<noteq> ''tags'' \<longrightarrow>
              (\<forall>ts. snd kv \<noteq> PyList ts)"
  shows "((\<forall>kv \<in> set kwargs. fst kv \<notin> set allowed) \<or> contact_id \<notin> cr_id ` set (contacts s) \<longrightarrow>
            update_contact s contact_id kwargs = (s, Inr False)) \<and>
         (\<forall>r. (\<exists>kv \<in> set kwargs. fst kv \<in> set allowed) \<and>
               find (\<lambda>x. cr_id x = contact_id) (contacts s) = Some r \<longrightarrow>
            (if map_of kwargs ''name'' = Some PyNone \<or> map_of kwargs ''email'' = Some PyNone \<or>
                (\<exists>t. map_of kwargs ''email'' = Some (PyStr t) \<and>
                     t \<in> cr_email ` set (filter (\<lambda>x. cr_id x \<noteq> contact_id) (contacts s)))
             then update_contact s contact_id kwargs = (s, Inl IntegrityError)
             else \<exists>s' r'. update_contact s contact_id kwargs = (s', Inr True) \<and>
                    contacts s' = map (\<lambda>x. if cr_id x = contact_id then r' else x) (contacts s) \<and>
                    deals s' = deals s \<and> interactions s' = interactions s \<and>
                    cr_id r' = contact_id \<and> cr_created_at r' = cr_created_at r \<and>
                    cr_last_contact r' = cr_last_contact r \<and>
                    (\<forall>k \<in> set allowed.
                       contacts_column k r' =
                         (case map_of kwargs k of
                            None \<Rightarrow> contacts_column k r
                          | Some v \<Rightarrow> sql_value v))))"
proof (intro conjI impI allI)
  assume a: "(\<forall>kv \<in> set kwargs. fst kv \<notin> set allowed) \<or> contact_id \<notin> cr_id ` set (contacts s)"
  show "update_contact s contact_id kwargs = (s, Inr False)"
  proof (cases "\<forall>kv \<in> set kwargs. fst kv \<notin> set allowed")
    case True
    then show ?thesis by (rule update_contact_no_field)
  next
    case False
    then have "contact_id \<notin> cr_id ` set (contacts s)" using a by blast
    then show ?thesis
      unfolding update_contact_unfold [OF d b] by (simp add: update_contacts_miss)
  qed
next
  fix r
  assume "(\<exists>kv \<in> set kwargs. fst kv \<in> set allowed) \<and>
          find (\<lambda>x. cr_id x = contact_id) (contacts s) = Some r"
  then have some: "\<exists>kv \<in> set kwargs. fst kv \<in> set allowed"
    and r: "find (\<lambda>x. cr_id x = contact_id) (contacts s) = Some r" by blast+
  show "if map_of kwargs ''name'' = Some PyNone \<or> map_of kwargs ''email'' = Some PyNone \<or>
                (\<exists>t. map_of kwargs ''email'' = Some (PyStr t) \<and>
                     t \<in> cr_email ` set (filter (\<lambda>x. cr_id x \<noteq> contact_id) (contacts s)))
             then update_contact s contact_id kwargs = (s, Inl IntegrityError)
             else \<exists>s' r'. update_contact s contact_id kwargs = (s', Inr True) \<and>
                    contacts s' = map (\<lambda>x. if cr_id x = contact_id then r' else x) (contacts s) \<and>
                    deals s' = deals s \<and> interactions s' = interactions s \<and>
                    cr_id r' = contact_id \<and> cr_created_at r' = cr_created_at r \<and>
                    cr_last_contact r' = cr_last_contact r \<and>
                    (\<forall>k \<in> set allowed.
                       contacts_column k r' =
                         (case map_of kwargs k of
                            None \<Rightarrow> contacts_column k r
                          | Some v \<Rightarrow> sql_value v))"
    by (rule update_contact_hit [OF keys d b some r])
qed

theorem update_contact_result_witness:
  "ddl_keys crm_alice_bob \<and>
   distinct (map fst [(''phone'', PyStr ''555-9999''), (''company'', PyStr ''NewCorp'')]) \<and>
   list_all (\<lambda>kv. \<forall>ts. snd kv \<noteq> PyList ts)
     [(''phone'', PyStr ''555-9999''), (''company'', PyStr ''NewCorp'')] \<and>
   (\<exists>kv \<in> set [(''phone'', PyStr ''555-9999''), (''company'', PyStr ''NewCorp'')].
      fst kv \<in> set allowed) \<and>
   find (\<lambda>x. cr_id x = ''id-alice'') (contacts crm_alice_bob) \<noteq> None \<and>
   ''id-none'' \<notin> cr_id ` set (contacts crm_alice_bob) \<and>
   update_contact crm_alice_bob ''id-none''
     [(''phone'', PyStr ''555-9999''), (''company'', PyStr ''NewCorp'')] = (crm_alice_bob, Inr False) \<and>
   (\<exists>s' r'. update_contact crm_alice_bob ''id-alice''
              [(''phone'', PyStr ''555-9999''), (''company'', PyStr ''NewCorp'')] = (s', Inr True) \<and>
            contacts s' = map (\<lambda>x. if cr_id x = ''id-alice'' then r' else x) (contacts crm_alice_bob) \<and>
            contacts_column ''phone'' r' = Some ''555-9999'' \<and>
            contacts_column ''company'' r' = Some ''NewCorp'' \<and>
            contacts_column ''name'' r' = Some ''Alice Ng'')"
proof -
  let ?kw = "[(''phone'', PyStr ''555-9999''), (''company'', PyStr ''NewCorp'')]"
  have h1: "ddl_keys crm_alice_bob" by code_simp
  have h2: "distinct (map fst ?kw)" by simp
  have h3: "\<forall>kv \<in> set ?kw. fst kv \<in> set allowed \<longrightarrow> fst kv \<noteq> ''tags'' \<longrightarrow>
              (\<forall>ts. snd kv \<noteq> PyList ts)" by simp
  have h4: "\<exists>kv \<in> set ?kw. fst kv \<in> set allowed" by (simp add: allowed_def)
  have h5: "find (\<lambda>x. cr_id x = ''id-alice'') (contacts crm_alice_bob) \<noteq> None" by code_simp
  have h6: "''id-none'' \<notin> cr_id ` set (contacts crm_alice_bob)" by code_simp
  obtain r where r: "find (\<lambda>x. cr_id x = ''id-alice'') (contacts crm_alice_bob) = Some r"
    using h5 by blast
  have rn: "contacts_column ''name'' r = Some ''Alice Ng''"
  proof -
    have "map_option (contacts_column ''name'')
            (find (\<lambda>x. cr_id x = ''id-alice'') (contacts crm_alice_bob)) = Some (Some ''Alice Ng'')"
      by code_simp
    then show ?thesis using r by simp
  qed
  have al: "''phone'' \<in> set allowed" "''company'' \<in> set allowed" "''name'' \<in> set allowed"
    by (simp_all add: allowed_def)
  have nv: "\<not> (map_of ?kw ''name'' = Some PyNone \<or> map_of ?kw ''email'' = Some PyNone \<or>
                (\<exists>t. map_of ?kw ''email'' = Some (PyStr t) \<and>
                     t \<in> cr_email ` set (filter (\<lambda>x. cr_id x \<noteq> ''id-alice'') (contacts crm_alice_bob))))"
    by simp
  note t1 = update_contact_result [OF h1 h2 h3, of "''id-none''"]
  note t2 = update_contact_result [OF h1 h2 h3, of "''id-alice''"]
  have miss: "update_contact crm_alice_bob ''id-none'' ?kw = (crm_alice_bob, Inr False)"
    using t1 h6 by blast
  have "\<forall>r. (\<exists>kv \<in> set ?kw. fst kv \<in> set allowed) \<and>
               find (\<lambda>x. cr_id x = ''id-alice'') (contacts crm_alice_bob) = Some r \<longrightarrow>
            (if map_of ?kw ''name'' = Some PyNone \<or> map_of ?kw ''email'' = Some PyNone \<or>
                (\<exists>t. map_of ?kw ''email'' = Some (PyStr t) \<and>
                     t \<in> cr_email ` set (filter (\<lambda>x. cr_id x \<noteq> ''id-alice'') (contacts crm_alice_bob)))
             then update_contact crm_alice_bob ''id-alice'' ?kw = (crm_alice_bob, Inl IntegrityError)
             else \<exists>s' r'. update_contact crm_alice_bob ''id-alice'' ?kw = (s', Inr True) \<and>
                    contacts s' = map (\<lambda>x. if cr_id x = ''id-alice'' then r' else x) (contacts crm_alice_bob) \<and>
                    deals s' = deals crm_alice_bob \<and> interactions s' = interactions crm_alice_bob \<and>
                    cr_id r' = ''id-alice'' \<and> cr_created_at r' = cr_created_at r \<and>
                    cr_last_contact r' = cr_last_contact r \<and>
                    (\<forall>k \<in> set allowed.
                       contacts_column k r' =
                         (case map_of ?kw k of
                            None \<Rightarrow> contacts_column k r
                          | Some v \<Rightarrow> sql_value v)))"
    using t2 by (rule conjunct2)
  then have "(\<exists>kv \<in> set ?kw. fst kv \<in> set allowed) \<and>
               find (\<lambda>x. cr_id x = ''id-alice'') (contacts crm_alice_bob) = Some r \<longrightarrow>
            (if map_of ?kw ''name'' = Some PyNone \<or> map_of ?kw ''email'' = Some PyNone \<or>
                (\<exists>t. map_of ?kw ''email'' = Some (PyStr t) \<and>
                     t \<in> cr_email ` set (filter (\<lambda>x. cr_id x \<noteq> ''id-alice'') (contacts crm_alice_bob)))
             then update_contact crm_alice_bob ''id-alice'' ?kw = (crm_alice_bob, Inl IntegrityError)
             else \<exists>s' r'. update_contact crm_alice_bob ''id-alice'' ?kw = (s', Inr True) \<and>
                    contacts s' = map (\<lambda>x. if cr_id x = ''id-alice'' then r' else x) (contacts crm_alice_bob) \<and>
                    deals s' = deals crm_alice_bob \<and> interactions s' = interactions crm_alice_bob \<and>
                    cr_id r' = ''id-alice'' \<and> cr_created_at r' = cr_created_at r \<and>
                    cr_last_contact r' = cr_last_contact r \<and>
                    (\<forall>k \<in> set allowed.
                       contacts_column k r' =
                         (case map_of ?kw k of
                            None \<Rightarrow> contacts_column k r
                          | Some v \<Rightarrow> sql_value v)))"
    by (rule spec)
  then have "\<exists>s' r'. update_contact crm_alice_bob ''id-alice'' ?kw = (s', Inr True) \<and>
          contacts s' = map (\<lambda>x. if cr_id x = ''id-alice'' then r' else x) (contacts crm_alice_bob) \<and>
          deals s' = deals crm_alice_bob \<and> interactions s' = interactions crm_alice_bob \<and>
          cr_id r' = ''id-alice'' \<and> cr_created_at r' = cr_created_at r \<and>
          cr_last_contact r' = cr_last_contact r \<and>
          (\<forall>k \<in> set allowed.
             contacts_column k r' =
               (case map_of ?kw k of None \<Rightarrow> contacts_column k r | Some v \<Rightarrow> sql_value v))"
    unfolding if_not_P [OF nv] using h4 r by (elim impE) (rule conjI)
  then obtain s' r' where
    u: "update_contact crm_alice_bob ''id-alice'' ?kw = (s', Inr True)"
       "contacts s' = map (\<lambda>x. if cr_id x = ''id-alice'' then r' else x) (contacts crm_alice_bob)"
    and cols: "\<forall>k \<in> set allowed.
             contacts_column k r' =
               (case map_of ?kw k of None \<Rightarrow> contacts_column k r | Some v \<Rightarrow> sql_value v)"
    by blast
  have "contacts_column ''phone'' r' = Some ''555-9999''"
    "contacts_column ''company'' r' = Some ''NewCorp''"
    "contacts_column ''name'' r' = Some ''Alice Ng''"
    using cols al rn by (simp_all add: sql_value_def)
  then have "\<exists>s' r'. update_contact crm_alice_bob ''id-alice'' ?kw = (s', Inr True) \<and>
            contacts s' = map (\<lambda>x. if cr_id x = ''id-alice'' then r' else x) (contacts crm_alice_bob) \<and>
            contacts_column ''phone'' r' = Some ''555-9999'' \<and>
            contacts_column ''company'' r' = Some ''NewCorp'' \<and>
            contacts_column ''name'' r' = Some ''Alice Ng''"
    using u by (intro exI [of _ s'] exI [of _ r'] conjI)
  moreover have "list_all (\<lambda>kv. \<forall>ts. snd kv \<noteq> PyList ts) ?kw" by simp
  ultimately show ?thesis
    by (intro conjI h1 h2 h4 h5 h6 miss)
qed

text \<open>
  The claim as stated fails where the update would duplicate an email: the field is
  whitelisted and the id is stored, yet the call raises instead of returning true.
\<close>

theorem update_contact_result_counterexample:
  "''email'' \<in> set allowed \<and> ''id-bob'' \<in> cr_id ` set (contacts crm_alice_bob) \<and>
   update_contact crm_alice_bob ''id-bob'' [(''email'', PyStr ''alice@example.com'')] =
     (crm_alice_bob, Inl IntegrityError)"
  by code_simp

section \<open>Properties: rounding\<close>

lemma py_round_of_int [simp]: "py_round (of_int n) = n"
  by (simp add: py_round_def)




lemma round2_hundredths [simp]: "round2 (of_int n / 100) = of_int n / 100"
  by (simp add: round2_def)

lemma round2_zero [simp]: "round2 0 = 0"
  using round2_hundredths [of 0] by simp



section \<open>Properties: the pipeline\<close>



lemma fold_update_keys:
  "fst ` set (fold (\<lambda>r d. AList.update (key r) (val r) d) rows d0) = fst ` set d0 \<union> key ` set rows"
  by (induction rows arbitrary: d0) (auto simp: dom_update)

















section \<open>Properties: the forecast\<close>




















lemma forecast_out_of_range:
  assumes "\<not> (\<bar>days\<bar> \<le> 999999999 \<and> 0 < today + days \<and> today + days \<le> 3652059)"
  shows "forecast_revenue s today days = Inl OverflowError"
  using assms by (auto simp: forecast_revenue_def timedelta_days_def date_plus_def)









section \<open>Properties: the follow-up queue\<close>








lemma follow_up_out_of_range:
  assumes "\<not> (\<bar>days_overdue\<bar> \<le> 999999999 \<and> 0 \<le> utcnow - days_overdue * us_per_day \<and>
              utcnow - days_overdue * us_per_day < 3652059 * us_per_day)"
  shows "get_follow_up_queue s utcnow days_overdue = Inl OverflowError"
  using assms by (auto simp: get_follow_up_queue_def timedelta_days_def datetime_minus_def Let_def)





end
